theory Spec2Isabelle
  imports
    Main
    "HOL-Library.Finite_Map"
    "HOL-Library.AList"
    "HOL-Library.Multiset"
    "HOL-Library.Char_ord"
    "HOL-Library.List_Lexorder"
begin

section \<open>Catalog helpers of the LMS: programs, program types and instructors\<close>

text \<open>
  This theory embeds \<^verbatim>\<open>openedx/core/djangoapps/catalog/utils.py\<close>. The module is
  Python 2 glue code: it reads the catalog configuration, asks the shared utility
  \<^verbatim>\<open>get_edx_api_data\<close> for programs and program types, and enriches copies of what it
  gets back. The collaborators that live outside the module (configuration, user table,
  fetch utility, course storage, key parser, hash iteration orders) are fields of an
  environment record; what the module can change or cause (objects, the Django cache,
  calls made) is a world record that every function takes and returns.
\<close>

subsection \<open>Python values\<close>

text \<open>
  JSON-like values. A mapping is a finite map, so that HOL equality of two values is
  Python's \<^verbatim>\<open>==\<close> on them. Booleans are the integers 0 and 1 (in Python
  \<^verbatim>\<open>True == 1\<close> and both hash alike); byte strings and unicode strings are not told
  apart; floating point numbers are left out.
\<close>

datatype pyval =
    PNone
  | PInt int
  | PStr string
  | PList "pyval list"
  | PDict "(string, pyval) fmap"

type_synonym pydict = "(string, pyval) fmap"

datatype error = KeyError | TypeError | AttributeError | StopIteration | InvalidKeyError

text \<open>Truth value of a value, as tested by \<^verbatim>\<open>if v:\<close>.\<close>

definition truthy :: "pyval \<Rightarrow> bool" where
  "truthy v =
     (case v of
        PNone \<Rightarrow> False
      | PInt i \<Rightarrow> i \<noteq> 0
      | PStr s \<Rightarrow> s \<noteq> []
      | PList xs \<Rightarrow> xs \<noteq> []
      | PDict d \<Rightarrow> d \<noteq> fmempty)"

text \<open>Lists and mappings cannot be keys of a dict: hashing them raises TypeError.\<close>

definition hashable :: "pyval \<Rightarrow> bool" where
  "hashable v = (case v of PList xs \<Rightarrow> False | PDict d \<Rightarrow> False | _ \<Rightarrow> True)"

text \<open>\<^verbatim>\<open>d[k]\<close> on a dict object.\<close>

definition dict_getitem :: "pydict \<Rightarrow> string \<Rightarrow> error + pyval" where
  "dict_getitem d k = (case fmlookup d k of None \<Rightarrow> Inl KeyError | Some v \<Rightarrow> Inr v)"

text \<open>\<^verbatim>\<open>v[k]\<close> with a string \<open>k\<close>: only a mapping can be subscripted by a string.\<close>

definition py_getitem :: "pyval \<Rightarrow> string \<Rightarrow> error + pyval" where
  "py_getitem v k = (case v of PDict d \<Rightarrow> dict_getitem d k | _ \<Rightarrow> Inl TypeError)"

text \<open>\<^verbatim>\<open>v.get(k, default)\<close>: only a mapping has the method.\<close>

definition py_get :: "pyval \<Rightarrow> string \<Rightarrow> pyval \<Rightarrow> error + pyval" where
  "py_get v k dflt =
     (case v of
        PDict d \<Rightarrow> Inr (case fmlookup d k of None \<Rightarrow> dflt | Some x \<Rightarrow> x)
      | _ \<Rightarrow> Inl AttributeError)"

text \<open>
  \<^verbatim>\<open>for x in v\<close>: a list yields its elements, a string its characters and a mapping its
  keys (in hash order; they are listed sorted here, and every loop of the module fails on
  the first string it meets, whichever it is). Nothing else is iterable.
\<close>

definition py_iter :: "pyval \<Rightarrow> error + pyval list" where
  "py_iter v =
     (case v of
        PList xs \<Rightarrow> Inr xs
      | PStr s \<Rightarrow> Inr (map (\<lambda>c. PStr [c]) s)
      | PDict d \<Rightarrow> Inr (map PStr (sorted_list_of_fset (fmdom d)))
      | _ \<Rightarrow> Inl TypeError)"

subsection \<open>Collaborators and state\<close>

type_synonym addr = nat

type_synonym course_key = string

text \<open>A course descriptor of the module store; the attribute may be missing.\<close>

datatype course_descriptor = CourseDescriptor (instructor_info: "pyval option")

record api_client =
  base_url :: string
  jwt :: string

text \<open>The arguments of one call of the fetch utility \<^verbatim>\<open>get_edx_api_data\<close>.\<close>

record api_request =
  user :: string
  resource :: string
  resource_id :: pyval
  cache_key :: "string option"
  api :: api_client
  querystring :: "pydict option"

text \<open>
  What the fetch utility hands out: a list of dict objects or one dict object. The dicts
  are objects of the store, named by their addresses, because the callers below may or
  may not write to them.
\<close>

datatype fetched = RList "addr list" | RObj addr

datatype event =
    UserLookup string
  | ApiCall api_request
  | CacheGet string
  | CacheSet string pyval
  | CourseLookup course_key

text \<open>
  The environment: the current \<^verbatim>\<open>CatalogIntegration\<close>, the settings, the user table,
  and the functions of other modules. \<open>set_iter\<close> and \<open>dict_iter\<close> are the iteration
  orders of a Python 2 set and dict, given the elements in insertion order;
  \<open>format_value\<close> is what \<^verbatim>\<open>'{}'.format(v)\<close> prints.
\<close>

record env =
  enabled :: bool
  service_username :: string
  CACHE_KEY :: string
  is_cache_enabled :: bool
  internal_api_url :: string
  OAUTH_ID_TOKEN_EXPIRATION :: int
  build_token :: "string \<Rightarrow> string list \<Rightarrow> int \<Rightarrow> string"
  user_objects :: "string list"
  get_edx_api_data :: "api_request \<Rightarrow> fetched"
  from_string :: "pyval \<Rightarrow> error + course_key"
  get_course :: "course_key \<Rightarrow> course_descriptor option"
  set_iter :: "course_key list \<Rightarrow> course_key list"
  dict_iter :: "(pyval \<times> pyval) list \<Rightarrow> (pyval \<times> pyval) list"
  format_value :: "pyval \<Rightarrow> string"

text \<open>
  The world: the store of dict objects (every address below \<open>next_free\<close> is allocated),
  the Django cache, and the calls made so far.
\<close>

record world =
  heap :: "addr \<Rightarrow> pydict"
  next_free :: addr
  cache :: "string \<Rightarrow> pyval option"
  trace :: "event list"

definition record_event :: "event \<Rightarrow> world \<Rightarrow> world" where
  "record_event e w = w\<lparr>trace := trace w @ [e]\<rparr>"

text \<open>\<^verbatim>\<open>copy.deepcopy\<close> of one dict object: a new object with the same contents.\<close>

definition deepcopy :: "addr \<Rightarrow> world \<Rightarrow> addr \<times> world" where
  "deepcopy a w =
     (next_free w,
      w\<lparr>heap := (heap w)(next_free w := heap w a), next_free := Suc (next_free w)\<rparr>)"

text \<open>\<^verbatim>\<open>obj[k] = v\<close> on the dict object at an address.\<close>

definition setitem :: "addr \<Rightarrow> string \<Rightarrow> pyval \<Rightarrow> world \<Rightarrow> world" where
  "setitem a k v w = w\<lparr>heap := (heap w)(a := fmupd k v (heap w a))\<rparr>"

text \<open>
  An element met while iterating over what the fetch utility returned: a dict object of
  a list, or, when the result is itself a dict, one of its keys, a string (listed sorted,
  as in \<open>py_iter\<close>). A string cannot be subscripted by a string.
\<close>

datatype item = Ref addr | Key string

definition iter_fetched :: "(addr \<Rightarrow> pydict) \<Rightarrow> fetched \<Rightarrow> item list" where
  "iter_fetched h r =
     (case r of
        RList as \<Rightarrow> map Ref as
      | RObj a \<Rightarrow> map Key (sorted_list_of_fset (fmdom (h a))))"

definition item_getitem :: "(addr \<Rightarrow> pydict) \<Rightarrow> item \<Rightarrow> string \<Rightarrow> error + pyval" where
  "item_getitem h it k = (case it of Ref a \<Rightarrow> dict_getitem (h a) k | Key s \<Rightarrow> Inl TypeError)"

definition item_truthy :: "(addr \<Rightarrow> pydict) \<Rightarrow> item \<Rightarrow> bool" where
  "item_truthy h it = (case it of Ref a \<Rightarrow> h a \<noteq> fmempty | Key s \<Rightarrow> s \<noteq> [])"

text \<open>
  The value an element stands for when it is stored into a field of another object.
  A stored dict is represented by its contents: the module never writes to an object
  it has stored.
\<close>

definition item_value :: "(addr \<Rightarrow> pydict) \<Rightarrow> item \<Rightarrow> pyval" where
  "item_value h it = (case it of Ref a \<Rightarrow> PDict (h a) | Key s \<Rightarrow> PStr s)"

definition fetched_truthy :: "(addr \<Rightarrow> pydict) \<Rightarrow> fetched \<Rightarrow> bool" where
  "fetched_truthy h r = (case r of RList as \<Rightarrow> as \<noteq> [] | RObj a \<Rightarrow> h a \<noteq> fmempty)"

subsection \<open>Fetching programs and program types\<close>

definition create_catalog_api_client :: "env \<Rightarrow> string \<Rightarrow> api_client" where
  "create_catalog_api_client env usr =
     (let scopes = [''email'', ''profile''];
          expires_in = OAUTH_ID_TOKEN_EXPIRATION env;
          token = build_token env usr scopes expires_in
      in \<lparr>base_url = internal_api_url env, jwt = token\<rparr>)"

text \<open>
  \<^verbatim>\<open>get_programs(uuid=None, type=None)\<close>. The uuid is any value (the module itself passes
  a field of a fetched program); the type is a string or absent.
\<close>

definition programs_request :: "env \<Rightarrow> pyval \<Rightarrow> string option \<Rightarrow> api_request" where
  "programs_request env uuid type =
     (let usr = service_username env;
          client = create_catalog_api_client env usr;
          key = CACHE_KEY env @ ''.programs'' @
                  (case type of None \<Rightarrow> '''' | Some t \<Rightarrow> if t \<noteq> '''' then ''.'' @ t else '''');
          q0 = fmap_of_list [(''marketable'', PInt 1), (''exclude_utm'', PInt 1)];
          q1 = (if truthy uuid then fmupd ''use_full_course_serializer'' (PInt 1) q0 else q0);
          q2 = (case type of None \<Rightarrow> q1
                | Some t \<Rightarrow> if t \<noteq> '''' then fmupd ''type'' (PStr t) q1 else q1)
      in \<lparr>user = usr, resource = ''programs'', resource_id = uuid,
          cache_key = (if is_cache_enabled env then Some key else None),
          api = client, querystring = Some q2\<rparr>)"

definition get_programs :: "env \<Rightarrow> pyval \<Rightarrow> string option \<Rightarrow> world \<Rightarrow> fetched \<times> world" where
  "get_programs env uuid type w =
     (if enabled env then
        (let w1 = record_event (UserLookup (service_username env)) w in
         if service_username env \<notin> set (user_objects env) then (RList [], w1)
         else
           (let req = programs_request env uuid type
            in (get_edx_api_data env req, record_event (ApiCall req) w1)))
      else (RList [], w))"

definition program_types_request :: "env \<Rightarrow> api_request" where
  "program_types_request env =
     (let usr = service_username env;
          client = create_catalog_api_client env usr;
          key = CACHE_KEY env @ ''.program_types''
      in \<lparr>user = usr, resource = ''program_types'', resource_id = PNone,
          cache_key = (if is_cache_enabled env then Some key else None),
          api = client, querystring = None\<rparr>)"

definition get_program_types :: "env \<Rightarrow> world \<Rightarrow> fetched \<times> world" where
  "get_program_types env w =
     (if enabled env then
        (let w1 = record_event (UserLookup (service_username env)) w in
         if service_username env \<notin> set (user_objects env) then (RList [], w1)
         else
           (let req = program_types_request env
            in (get_edx_api_data env req, record_event (ApiCall req) w1)))
      else (RList [], w))"

text \<open>
  \<^verbatim>\<open>next(pt for pt in ... if pt['name'] == name)\<close>: the first element that satisfies the
  test; an exhausted generator raises StopIteration.
\<close>

fun next_program_type :: "(addr \<Rightarrow> pydict) \<Rightarrow> pyval \<Rightarrow> item list \<Rightarrow> error + item" where
  "next_program_type h name [] = Inl StopIteration"
| "next_program_type h name (pt # pts) =
     (case item_getitem h pt ''name'' of
        Inl e \<Rightarrow> Inl e
      | Inr v \<Rightarrow> if v = name then Inr pt else next_program_type h name pts)"

definition get_program_type :: "env \<Rightarrow> pyval \<Rightarrow> world \<Rightarrow> (error + item) \<times> world" where
  "get_program_type env name w =
     (let (types, w1) = get_program_types env w
      in (next_program_type (heap w1) name (iter_fetched (heap w1) types), w1))"

subsection \<open>Instructors of a program\<close>

text \<open>\<^verbatim>\<open>keys.add(k)\<close> on a set kept as the list of its elements in insertion order.\<close>

definition set_add :: "'a \<Rightarrow> 'a list \<Rightarrow> 'a list" where
  "set_add k ks = (if k \<in> set ks then ks else ks @ [k])"

fun add_course_runs :: "env \<Rightarrow> pyval list \<Rightarrow> course_key list \<Rightarrow> error + course_key list" where
  "add_course_runs env [] keys = Inr keys"
| "add_course_runs env (course_run # rest) keys =
     (case py_getitem course_run ''key'' of
        Inl e \<Rightarrow> Inl e
      | Inr k \<Rightarrow>
          (case from_string env k of
             Inl e \<Rightarrow> Inl e
           | Inr ck \<Rightarrow> add_course_runs env rest (set_add ck keys)))"

fun add_courses :: "env \<Rightarrow> pyval list \<Rightarrow> course_key list \<Rightarrow> error + course_key list" where
  "add_courses env [] keys = Inr keys"
| "add_courses env (course # rest) keys =
     (case py_getitem course ''course_runs'' of
        Inl e \<Rightarrow> Inl e
      | Inr runs \<Rightarrow>
          (case py_iter runs of
             Inl e \<Rightarrow> Inl e
           | Inr course_runs \<Rightarrow>
               (case add_course_runs env course_runs keys of
                  Inl e \<Rightarrow> Inl e
                | Inr keys' \<Rightarrow> add_courses env rest keys')))"

definition get_program_course_run_keys :: "env \<Rightarrow> pydict \<Rightarrow> error + course_key list" where
  "get_program_course_run_keys env program =
     (case dict_getitem program ''courses'' of
        Inl e \<Rightarrow> Inl e
      | Inr cs \<Rightarrow>
          (case py_iter cs of
             Inl e \<Rightarrow> Inl e
           | Inr courses \<Rightarrow> add_courses env courses []))"

text \<open>
  A local dict keyed by arbitrary hashable values is the list of its items in insertion
  order; storing under a key that is present overwrites in place.
\<close>

type_synonym instructor_dict = "(pyval \<times> pyval) list"

text \<open>\<^verbatim>\<open>{instructor.get('name'): instructor for instructor in ...}\<close>\<close>

fun instructors_by_name :: "pyval list \<Rightarrow> instructor_dict \<Rightarrow> error + instructor_dict" where
  "instructors_by_name [] d = Inr d"
| "instructors_by_name (instructor # rest) d =
     (case py_get instructor ''name'' PNone of
        Inl e \<Rightarrow> Inl e
      | Inr n \<Rightarrow>
          if hashable n then instructors_by_name rest (AList.update n instructor d)
          else Inl TypeError)"

text \<open>\<^verbatim>\<open>d.update(other)\<close>: the items of \<open>other\<close>, in its iteration order, stored into \<open>d\<close>.\<close>

definition dict_update :: "env \<Rightarrow> instructor_dict \<Rightarrow> instructor_dict \<Rightarrow> instructor_dict" where
  "dict_update env d other = foldl (\<lambda>acc (k, v). AList.update k v acc) d (dict_iter env other)"

text \<open>
  The instructors a descriptor lists, as the comprehension iterates over them:
  \<^verbatim>\<open>getattr(course_descriptor, 'instructor_info', {}).get('instructors', [])\<close>
\<close>

definition descriptor_instructors :: "course_descriptor \<Rightarrow> error + pyval list" where
  "descriptor_instructors course_descriptor =
     (let course_instructors =
            (case instructor_info course_descriptor of None \<Rightarrow> PDict fmempty | Some v \<Rightarrow> v)
      in case py_get course_instructors ''instructors'' (PList []) of
           Inl e \<Rightarrow> Inl e
         | Inr v \<Rightarrow> py_iter v)"

text \<open>
  The body of the loop over course run keys, without the lookup event. A descriptor
  that was found is an object and therefore true.
\<close>

definition add_course_instructors :: "env \<Rightarrow> course_key \<Rightarrow> instructor_dict \<Rightarrow> error + instructor_dict" where
  "add_course_instructors env course_run_key d =
     (case get_course env course_run_key of
        None \<Rightarrow> Inr d
      | Some course_descriptor \<Rightarrow>
          (case descriptor_instructors course_descriptor of
             Inl e \<Rightarrow> Inl e
           | Inr instructors \<Rightarrow>
               (case instructors_by_name instructors [] of
                  Inl e \<Rightarrow> Inl e
                | Inr by_name \<Rightarrow> Inr (dict_update env d by_name))))"

fun collect_instructors ::
  "env \<Rightarrow> course_key list \<Rightarrow> instructor_dict \<Rightarrow> world \<Rightarrow> (error + instructor_dict) \<times> world" where
  "collect_instructors env [] d w = (Inr d, w)"
| "collect_instructors env (k # ks) d w =
     (let w1 = record_event (CourseLookup k) w
      in case add_course_instructors env k d of
           Inl e \<Rightarrow> (Inl e, w1)
         | Inr d' \<Rightarrow> collect_instructors env ks d' w1)"

definition instructors_cache_key :: "env \<Rightarrow> pydict \<Rightarrow> string" where
  "instructors_cache_key env program =
     ''program.instructors.'' @
       format_value env (case fmlookup program ''uuid'' of None \<Rightarrow> PNone | Some v \<Rightarrow> v)"

text \<open>\<^verbatim>\<open>cache.get(key)\<close>: None when nothing is stored.\<close>

definition cache_get :: "world \<Rightarrow> string \<Rightarrow> pyval" where
  "cache_get w key = (case cache w key of None \<Rightarrow> PNone | Some v \<Rightarrow> v)"

text \<open>\<^verbatim>\<open>_get_program_instructors(program)\<close> (an Isabelle name cannot start with an underscore).\<close>

definition get_program_instructors :: "env \<Rightarrow> pydict \<Rightarrow> world \<Rightarrow> (error + pyval) \<times> world" where
  "get_program_instructors env program w =
     (let key = instructors_cache_key env program;
          program_instructors_list = cache_get w key;
          w1 = record_event (CacheGet key) w
      in if \<not> truthy program_instructors_list then
           (case get_program_course_run_keys env program of
              Inl e \<Rightarrow> (Inl e, w1)
            | Inr keys \<Rightarrow>
                (case collect_instructors env (set_iter env keys) [] w1 of
                   (Inl e, w2) \<Rightarrow> (Inl e, w2)
                 | (Inr d, w2) \<Rightarrow>
                     (let vals = PList (map snd (dict_iter env d))
                      in (Inr vals,
                          record_event (CacheSet key vals) (w2\<lparr>cache := (cache w2)(key \<mapsto> vals)\<rparr>)))))
         else (Inr program_instructors_list, w1))"

subsection \<open>Enriched programs\<close>

text \<open>
  \<^verbatim>\<open>next((p for p in programs if p['marketing_slug'] == slug), None)\<close>
\<close>

fun next_program :: "(addr \<Rightarrow> pydict) \<Rightarrow> string \<Rightarrow> item list \<Rightarrow> error + item option" where
  "next_program h slug [] = Inr None"
| "next_program h slug (p # ps) =
     (case item_getitem h p ''marketing_slug'' of
        Inl e \<Rightarrow> Inl e
      | Inr v \<Rightarrow> if v = PStr slug then Inr (Some p) else next_program h slug ps)"

text \<open>
  \<^verbatim>\<open>copy.deepcopy\<close> of what a fetch returned. One call copies an object that occurs twice
  in a list once (the memo of the call).
\<close>

fun deepcopy_list :: "addr list \<Rightarrow> (addr \<times> addr) list \<Rightarrow> world \<Rightarrow> addr list \<times> world" where
  "deepcopy_list [] memo w = ([], w)"
| "deepcopy_list (a # as) memo w =
     (case map_of memo a of
        Some c \<Rightarrow> (let (cs, w') = deepcopy_list as memo w in (c # cs, w'))
      | None \<Rightarrow>
          (let (c, w1) = deepcopy a w;
               (cs, w') = deepcopy_list as ((a, c) # memo) w1
           in (c # cs, w')))"

definition deepcopy_fetched :: "fetched \<Rightarrow> world \<Rightarrow> fetched \<times> world" where
  "deepcopy_fetched r w =
     (case r of
        RObj a \<Rightarrow> (let (c, w') = deepcopy a w in (RObj c, w'))
      | RList as \<Rightarrow> (let (cs, w') = deepcopy_list as [] w in (RList cs, w')))"

text \<open>
  The body of \<^verbatim>\<open>if program:\<close> in \<^verbatim>\<open>get_program_with_type_and_instructors\<close>, from the
  re-fetched program on. A list can neither be subscripted by a string nor asked for
  \<^verbatim>\<open>.get\<close>. In an assignment \<^verbatim>\<open>c[k] = e\<close> the right-hand side is evaluated first.
\<close>

definition attach_type_and_instructors ::
  "env \<Rightarrow> fetched \<Rightarrow> world \<Rightarrow> (error + addr option) \<times> world" where
  "attach_type_and_instructors env fully_serialized_program w =
     (let (program_with_type_and_instructors, w1) = deepcopy_fetched fully_serialized_program w
      in case fully_serialized_program of
           RList as \<Rightarrow> (Inl TypeError, w1)
         | RObj r \<Rightarrow>
             (case dict_getitem (heap w1 r) ''type'' of
                Inl e \<Rightarrow> (Inl e, w1)
              | Inr type_name \<Rightarrow>
                  (case get_program_type env type_name w1 of
                     (Inl e, w2) \<Rightarrow> (Inl e, w2)
                   | (Inr program_type, w2) \<Rightarrow>
                       (case program_with_type_and_instructors of
                          RList cs \<Rightarrow> (Inl TypeError, w2)
                        | RObj c \<Rightarrow>
                            (let w3 = setitem c ''type'' (item_value (heap w2) program_type) w2
                             in case get_program_instructors env (heap w3 r) w3 of
                                  (Inl e, w4) \<Rightarrow> (Inl e, w4)
                                | (Inr instructors, w4) \<Rightarrow>
                                    (Inr (Some c), setitem c ''instructors'' instructors w4))))))"

definition get_program_with_type_and_instructors ::
  "env \<Rightarrow> string \<Rightarrow> world \<Rightarrow> (error + addr option) \<times> world" where
  "get_program_with_type_and_instructors env marketing_slug w =
     (let (programs, w1) = get_programs env PNone None w
      in case next_program (heap w1) marketing_slug (iter_fetched (heap w1) programs) of
           Inl e \<Rightarrow> (Inl e, w1)
         | Inr None \<Rightarrow> (Inr None, w1)
         | Inr (Some program) \<Rightarrow>
             if item_truthy (heap w1) program then
               (case item_getitem (heap w1) program ''uuid'' of
                  Inl e \<Rightarrow> (Inl e, w1)
                | Inr uuid \<Rightarrow>
                    (let (fully_serialized_program, w2) = get_programs env uuid None w1
                     in attach_type_and_instructors env fully_serialized_program w2))
             else (Inr None, w1))"

text \<open>
  \<^verbatim>\<open>{program_type['name']: program_type for program_type in get_program_types()}\<close>
\<close>

fun program_types_by_name ::
  "(addr \<Rightarrow> pydict) \<Rightarrow> item list \<Rightarrow> (pyval \<times> item) list \<Rightarrow> error + (pyval \<times> item) list" where
  "program_types_by_name h [] d = Inr d"
| "program_types_by_name h (program_type # rest) d =
     (case item_getitem h program_type ''name'' of
        Inl e \<Rightarrow> Inl e
      | Inr n \<Rightarrow>
          if hashable n then program_types_by_name h rest (AList.update n program_type d)
          else Inl TypeError)"

text \<open>\<^verbatim>\<open>d[k]\<close> on a local dict: an unhashable key is a TypeError, a missing one a KeyError.\<close>

definition lookup_program_type :: "(pyval \<times> item) list \<Rightarrow> pyval \<Rightarrow> error + item" where
  "lookup_program_type d k =
     (if hashable k then (case map_of d k of None \<Rightarrow> Inl KeyError | Some t \<Rightarrow> Inr t)
      else Inl TypeError)"

text \<open>\<^verbatim>\<open>not include_types or program['type'] in include_types\<close>\<close>

definition program_selected ::
  "(addr \<Rightarrow> pydict) \<Rightarrow> pyval list option \<Rightarrow> item \<Rightarrow> error + bool" where
  "program_selected h include_types program =
     (case include_types of
        None \<Rightarrow> Inr True
      | Some types \<Rightarrow>
          if types = [] then Inr True
          else
            (case item_getitem h program ''type'' of
               Inl e \<Rightarrow> Inl e
             | Inr t \<Rightarrow> Inr (t \<in> set types)))"

text \<open>
  The loop of \<^verbatim>\<open>get_programs_with_type\<close>. A dict object is copied to a new object; a
  string is its own copy, and \<^verbatim>\<open>program['type']\<close> on it is a TypeError.
\<close>

fun add_programs_with_type ::
  "pyval list option \<Rightarrow> (pyval \<times> item) list \<Rightarrow> item list \<Rightarrow> addr list \<Rightarrow> world \<Rightarrow>
     (error + addr list) \<times> world" where
  "add_programs_with_type include_types program_types [] programs_with_type w =
     (Inr programs_with_type, w)"
| "add_programs_with_type include_types program_types (program # rest) programs_with_type w =
     (case program_selected (heap w) include_types program of
        Inl e \<Rightarrow> (Inl e, w)
      | Inr False \<Rightarrow> add_programs_with_type include_types program_types rest programs_with_type w
      | Inr True \<Rightarrow>
          (case program of
             Key s \<Rightarrow> (Inl TypeError, w)
           | Ref a \<Rightarrow>
               (let (program_with_type, w1) = deepcopy a w
                in case dict_getitem (heap w1 a) ''type'' of
                     Inl e \<Rightarrow> (Inl e, w1)
                   | Inr t \<Rightarrow>
                       (case lookup_program_type program_types t of
                          Inl e \<Rightarrow> (Inl e, w1)
                        | Inr program_type \<Rightarrow>
                            add_programs_with_type include_types program_types rest
                              (programs_with_type @ [program_with_type])
                              (setitem program_with_type ''type''
                                 (item_value (heap w1) program_type) w1)))))"

definition get_programs_with_type ::
  "env \<Rightarrow> pyval list option \<Rightarrow> world \<Rightarrow> (error + addr list) \<times> world" where
  "get_programs_with_type env include_types w =
     (let (programs, w1) = get_programs env PNone None w
      in if fetched_truthy (heap w1) programs then
           (let (types, w2) = get_program_types env w1
            in case program_types_by_name (heap w2) (iter_fetched (heap w2) types) [] of
                 Inl e \<Rightarrow> (Inl e, w2)
               | Inr program_types \<Rightarrow>
                   add_programs_with_type include_types program_types
                     (iter_fetched (heap w2) programs) [] w2)
         else (Inr [], w1))"

subsection \<open>Observing calls\<close>

text \<open>The events a call added to the trace, and the fetch and cache calls among events.\<close>

definition new_events :: "world \<Rightarrow> world \<Rightarrow> event list" where
  "new_events w w' = drop (length (trace w)) (trace w')"

fun api_calls :: "event list \<Rightarrow> api_request list" where
  "api_calls [] = []"
| "api_calls (ApiCall req # es) = req # api_calls es"
| "api_calls (e # es) = api_calls es"

fun cache_events :: "event list \<Rightarrow> event list" where
  "cache_events [] = []"
| "cache_events (CacheGet k # es) = CacheGet k # cache_events es"
| "cache_events (CacheSet k v # es) = CacheSet k v # cache_events es"
| "cache_events (e # es) = cache_events es"

text \<open>
  A later world extends an earlier one when every object that was allocated is still
  allocated and has kept its contents.
\<close>

definition extends :: "world \<Rightarrow> world \<Rightarrow> bool" where
  "extends w w' \<longleftrightarrow> next_free w \<le> next_free w' \<and> (\<forall>a<next_free w. heap w' a = heap w a)"

text \<open>
  Whatever the fetch utility hands out exists: the objects it returns are allocated.
\<close>

definition allocated :: "world \<Rightarrow> fetched \<Rightarrow> bool" where
  "allocated w r = (case r of RList as \<Rightarrow> list_all (\<lambda>a. a < next_free w) as | RObj a \<Rightarrow> a < next_free w)"

definition fetched_allocated :: "env \<Rightarrow> world \<Rightarrow> bool" where
  "fetched_allocated env w \<longleftrightarrow> (\<forall>req. allocated w (get_edx_api_data env req))"

text \<open>The objects of a fetch result have in the later world the contents they had.\<close>

definition unchanged :: "world \<Rightarrow> world \<Rightarrow> fetched \<Rightarrow> bool" where
  "unchanged w w' r =
     (case r of
        RList as \<Rightarrow> list_all (\<lambda>a. heap w' a = heap w a) as
      | RObj a \<Rightarrow> heap w' a = heap w a)"

subsection \<open>Words of the specification\<close>

text \<open>
  A program passes the filter when no filter is given, or an empty one, or its type name
  is in the filter. The program type a name stands for is the last one of that name in
  the list of program types (the lookup table built from the list keeps the last).
\<close>

definition selected :: "pyval list option \<Rightarrow> pydict \<Rightarrow> bool" where
  "selected include_types program =
     (case include_types of
        None \<Rightarrow> True
      | Some types \<Rightarrow>
          types = [] \<or> (case fmlookup program ''type'' of None \<Rightarrow> False | Some t \<Rightarrow> t \<in> set types))"

definition type_named :: "(addr \<Rightarrow> pydict) \<Rightarrow> addr list \<Rightarrow> pyval \<Rightarrow> addr option" where
  "type_named h ts n = find (\<lambda>t. fmlookup (h t) ''name'' = Some n) (rev ts)"

text \<open>
  The data as the specification describes it. The elements of a value that is a list
  (nothing otherwise) and a field of a value that is a mapping (None otherwise); the
  course runs of a program, course by course; the course key a course run names.
\<close>

definition list_items :: "pyval \<Rightarrow> pyval list" where
  "list_items v = (case v of PList xs \<Rightarrow> xs | _ \<Rightarrow> [])"

definition get_field :: "pyval \<Rightarrow> string \<Rightarrow> pyval" where
  "get_field v k =
     (case v of
        PDict d \<Rightarrow> (case fmlookup d k of None \<Rightarrow> PNone | Some x \<Rightarrow> x)
      | _ \<Rightarrow> PNone)"

definition program_course_runs :: "pydict \<Rightarrow> pyval list" where
  "program_course_runs program =
     concat (map (\<lambda>course. list_items (get_field course ''course_runs''))
               (list_items (get_field (PDict program) ''courses'')))"

definition run_key :: "env \<Rightarrow> pyval \<Rightarrow> error + course_key" where
  "run_key env course_run =
     (case py_getitem course_run ''key'' of Inl e \<Rightarrow> Inl e | Inr k \<Rightarrow> from_string env k)"

text \<open>
  The name an instructor entry is filed under; the instructors a course run contributes:
  the list \<^verbatim>\<open>instructor_info.instructors\<close> of its course, and none when the course is not
  found or has no such list; whether a course run has a descriptor with instructor
  information at all; and when the instructors of a course are well formed (mappings
  with hashable names). The iteration orders of the environment are well behaved when
  they only permute. The last two definitions serve the proofs: the last entry of each
  name in a list, and a local dict whose keys are the names of its entries.
\<close>

definition instructor_name :: "pyval \<Rightarrow> pyval" where
  "instructor_name i = (case py_get i ''name'' PNone of Inl e \<Rightarrow> PNone | Inr n \<Rightarrow> n)"

definition course_instructors :: "env \<Rightarrow> course_key \<Rightarrow> pyval list" where
  "course_instructors env k =
     (case get_course env k of
        None \<Rightarrow> []
      | Some course_descriptor \<Rightarrow>
          (case instructor_info course_descriptor of
             None \<Rightarrow> []
           | Some info \<Rightarrow> list_items (get_field info ''instructors'')))"

definition instructor_wellformed :: "pyval \<Rightarrow> bool" where
  "instructor_wellformed i =
     (case i of PDict d \<Rightarrow> hashable (instructor_name i) | _ \<Rightarrow> False)"

definition instructors_wellformed :: "env \<Rightarrow> course_key \<Rightarrow> bool" where
  "instructors_wellformed env k =
     (case get_course env k of
        None \<Rightarrow> True
      | Some course_descriptor \<Rightarrow>
          (case instructor_info course_descriptor of
             None \<Rightarrow> True
           | Some info \<Rightarrow>
               (case info of
                  PDict d \<Rightarrow>
                    (case fmlookup d ''instructors'' of
                       None \<Rightarrow> True
                     | Some v \<Rightarrow>
                         (case v of
                            PList is \<Rightarrow> list_all instructor_wellformed is
                          | _ \<Rightarrow> False))
                | _ \<Rightarrow> False)))"

definition has_instructor_info :: "env \<Rightarrow> course_key \<Rightarrow> bool" where
  "has_instructor_info env k =
     (case get_course env k of
        None \<Rightarrow> False
      | Some course_descriptor \<Rightarrow> instructor_info course_descriptor \<noteq> None)"

definition hash_orders_ok :: "env \<Rightarrow> bool" where
  "hash_orders_ok env \<longleftrightarrow>
     (\<forall>ks. mset (set_iter env ks) = mset ks) \<and> (\<forall>d. mset (dict_iter env d) = mset d)"

definition by_name :: "pyval list \<Rightarrow> pyval \<Rightarrow> pyval option" where
  "by_name is = map_of (rev (map (\<lambda>i. (instructor_name i, i)) is))"

definition named :: "(pyval \<times> pyval) list \<Rightarrow> bool" where
  "named d \<longleftrightarrow> distinct (map fst d) \<and> (\<forall>(k, v)\<in>set d. instructor_name v = k)"

subsection \<open>A small catalog\<close>

text \<open>
  Two programs (objects 0 and 1) and two program types (objects 2 and 3); the first
  program has two course runs whose courses both list an instructor named Ann.
\<close>

definition example_heap :: "addr \<Rightarrow> pydict" where
  "example_heap a =
     (if a = 0 then
        fmap_of_list
          [(''uuid'', PStr ''u1''), (''marketing_slug'', PStr ''ds''), (''type'', PStr ''MM''),
           (''courses'', PList [PDict (fmap_of_list [(''course_runs'',
               PList [PDict (fmap_of_list [(''key'', PStr ''c1'')]),
                      PDict (fmap_of_list [(''key'', PStr ''c2'')])])])])]
      else if a = 1 then
        fmap_of_list
          [(''uuid'', PStr ''u2''), (''marketing_slug'', PStr ''ai''), (''type'', PStr ''XS''),
           (''courses'', PList [])]
      else if a = 2 then fmap_of_list [(''name'', PStr ''MM''), (''logo'', PStr ''mm.png'')]
      else if a = 3 then fmap_of_list [(''name'', PStr ''XS''), (''logo'', PStr ''xs.png'')]
      else fmempty)"

definition example_fetch :: "api_request \<Rightarrow> fetched" where
  "example_fetch req =
     (if resource req = ''programs'' then
        (if resource_id req = PStr ''u1'' then RObj 0
         else if resource_id req = PStr ''u2'' then RObj 1
         else RList [0, 1])
      else RList [2, 3])"

definition example_course :: "course_key \<Rightarrow> course_descriptor option" where
  "example_course k =
     (if k = ''c1'' then
        Some (CourseDescriptor (Some (PDict (fmap_of_list [(''instructors'',
          PList [PDict (fmap_of_list [(''name'', PStr ''Ann''), (''organization'', PStr ''X'')]),
                 PDict (fmap_of_list [(''name'', PStr ''Bob''), (''organization'', PStr ''X'')])])]))))
      else if k = ''c2'' then
        Some (CourseDescriptor (Some (PDict (fmap_of_list [(''instructors'',
          PList [PDict (fmap_of_list [(''name'', PStr ''Ann''), (''organization'', PStr ''Y'')])])]))))
      else None)"

definition example_env :: env where
  "example_env =
     \<lparr>enabled = True, service_username = ''svc'', CACHE_KEY = ''catalog'',
      is_cache_enabled = True, internal_api_url = ''https://catalog/api/v1'',
      OAUTH_ID_TOKEN_EXPIRATION = 30,
      build_token = (\<lambda>usr scopes expires_in. ''jwt-'' @ usr),
      user_objects = [''staff'', ''svc''],
      get_edx_api_data = example_fetch,
      from_string = (\<lambda>v. case v of PStr s \<Rightarrow> Inr s | _ \<Rightarrow> Inl InvalidKeyError),
      get_course = example_course,
      set_iter = rev,
      dict_iter = rev,
      format_value = (\<lambda>v. case v of PStr s \<Rightarrow> s | _ \<Rightarrow> ''None'')\<rparr>"

definition example_world :: world where
  "example_world = \<lparr>heap = example_heap, next_free = 4, cache = (\<lambda>k. None), trace = []\<rparr>"

text \<open>The same catalog when the program types cannot be fetched, or only the first one.\<close>

definition no_types_env :: env where
  "no_types_env =
     example_env\<lparr>get_edx_api_data :=
       (\<lambda>req. if resource req = ''programs'' then example_fetch req else RList [])\<rparr>"

definition one_type_env :: env where
  "one_type_env =
     example_env\<lparr>get_edx_api_data :=
       (\<lambda>req. if resource req = ''programs'' then example_fetch req else RList [2])\<rparr>"

text \<open>
  Worlds whose cache holds a stale list, or an empty one, for the first program, and
  environments in which a course is missing or has no instructor information.
\<close>

definition stale_world :: world where
  "stale_world =
     example_world\<lparr>cache :=
       (\<lambda>k. if k = ''program.instructors.u1''
            then Some (PList [PDict (fmap_of_list [(''name'', PStr ''Old'')])]) else None)\<rparr>"

definition emptied_world :: world where
  "emptied_world =
     example_world\<lparr>cache :=
       (\<lambda>k. if k = ''program.instructors.u1'' then Some (PList []) else None)\<rparr>"

definition missing_course_env :: env where
  "missing_course_env =
     example_env\<lparr>get_course := (\<lambda>k. if k = ''c2'' then example_course k else None)\<rparr>"

definition no_info_env :: env where
  "no_info_env =
     example_env\<lparr>get_course :=
       (\<lambda>k. if k = ''c1'' then Some (CourseDescriptor None) else None)\<rparr>"

section \<open>Properties\<close>

subsection \<open>Fetching\<close>

text \<open>
  Claim C5. When the catalog integration is disabled, or enabled while no user has the
  configured service username, \<open>get_programs\<close> (for every uuid and type) and
  \<open>get_program_types\<close> return the empty list; the world is left as it was except for
  the user lookup of the enabled case: no call of the fetch utility and no cache access
  is made.
\<close>

theorem no_fetch_when_disabled_or_user_missing:
  assumes "\<not> enabled env \<or> service_username env \<notin> set (user_objects env)"
  shows "fst (get_programs env uuid type w) = RList [] \<and>
         snd (get_programs env uuid type w) =
           w\<lparr>trace := trace w @ (if enabled env then [UserLookup (service_username env)] else [])\<rparr> \<and>
         api_calls (new_events w (snd (get_programs env uuid type w))) = [] \<and>
         cache_events (new_events w (snd (get_programs env uuid type w))) = [] \<and>
         fst (get_program_types env w) = RList [] \<and>
         snd (get_program_types env w) =
           w\<lparr>trace := trace w @ (if enabled env then [UserLookup (service_username env)] else [])\<rparr> \<and>
         api_calls (new_events w (snd (get_program_types env w))) = [] \<and>
         cache_events (new_events w (snd (get_program_types env w))) = []"
  using assms
  by (auto simp: get_programs_def get_program_types_def record_event_def new_events_def Let_def)

theorem no_fetch_witness:
  "service_username (example_env\<lparr>user_objects := [''staff'']\<rparr>)
     \<notin> set (user_objects (example_env\<lparr>user_objects := [''staff'']\<rparr>)) \<and>
   fst (get_programs (example_env\<lparr>user_objects := [''staff'']\<rparr>) (PStr ''u1'') (Some ''MM'') example_world) = RList [] \<and>
   trace (snd (get_programs (example_env\<lparr>user_objects := [''staff'']\<rparr>) (PStr ''u1'') (Some ''MM'') example_world))
     = [UserLookup ''svc''] \<and>
   fst (get_program_types (example_env\<lparr>user_objects := [''staff'']\<rparr>) example_world) = RList [] \<and>
   \<not> enabled (example_env\<lparr>enabled := False\<rparr>) \<and>
   fst (get_programs (example_env\<lparr>enabled := False\<rparr>) PNone None example_world) = RList [] \<and>
   snd (get_programs (example_env\<lparr>enabled := False\<rparr>) PNone None example_world) = example_world \<and>
   snd (get_program_types (example_env\<lparr>enabled := False\<rparr>) example_world) = example_world"
proof -
  have a: "\<not> enabled (example_env\<lparr>user_objects := [''staff'']\<rparr>) \<or>
           service_username (example_env\<lparr>user_objects := [''staff'']\<rparr>)
             \<notin> set (user_objects (example_env\<lparr>user_objects := [''staff'']\<rparr>))"
    by (simp add: example_env_def)
  have b: "\<not> enabled (example_env\<lparr>enabled := False\<rparr>) \<or>
           service_username (example_env\<lparr>enabled := False\<rparr>)
             \<notin> set (user_objects (example_env\<lparr>enabled := False\<rparr>))"
    by simp
  have e: "enabled (example_env\<lparr>user_objects := [''staff'']\<rparr>)"
     "service_username (example_env\<lparr>user_objects := [''staff'']\<rparr>) = ''svc''"
     "service_username (example_env\<lparr>user_objects := [''staff'']\<rparr>)
     \<notin> set (user_objects (example_env\<lparr>user_objects := [''staff'']\<rparr>))"
    by (simp_all add: example_env_def)
  show ?thesis
    using no_fetch_when_disabled_or_user_missing [OF a, of "PStr ''u1''" "Some ''MM''" example_world]
      no_fetch_when_disabled_or_user_missing [OF b, of PNone None example_world]
    by (simp add: e) (simp add: example_world_def)
qed

lemma programs_request_querystring:
  "querystring (programs_request env uuid type) =
     Some (fmap_of_list
             ([(''marketable'', PInt 1), (''exclude_utm'', PInt 1)] @
              (if truthy uuid then [(''use_full_course_serializer'', PInt 1)] else []) @
              (case type of None \<Rightarrow> [] | Some t \<Rightarrow> if t = '''' then [] else [(''type'', PStr t)])))"
  by (cases type) (auto simp: programs_request_def Let_def intro!: fmap_ext)

lemma programs_request_cache_key:
  "cache_key (programs_request env uuid type) =
     (if is_cache_enabled env then
        Some (CACHE_KEY env @ ''.programs'' @
          (case type of None \<Rightarrow> '''' | Some t \<Rightarrow> if t = '''' then '''' else ''.'' @ t))
      else None)"
  by (cases type) (auto simp: programs_request_def Let_def)

lemma get_programs_enabled:
  assumes "enabled env" and "service_username env \<in> set (user_objects env)"
  shows "get_programs env uuid type w =
           (get_edx_api_data env (programs_request env uuid type),
            w\<lparr>trace := trace w @ [UserLookup (service_username env),
                                  ApiCall (programs_request env uuid type)]\<rparr>)"
  using assms by (simp add: get_programs_def record_event_def Let_def)

text \<open>
  Claim C6, as amended. A call of \<open>get_programs\<close> that reaches the fetch utility asks for
  the resource \<^verbatim>\<open>programs\<close> with the uuid as resource id. The cache key is None when the
  cache of the configuration is disabled, and otherwise the prefix followed by
  \<^verbatim>\<open>.programs\<close> and, when the type is a non-empty string, a dot and the type. The query
  string is exactly \<^verbatim>\<open>marketable=1\<close> and \<^verbatim>\<open>exclude_utm=1\<close>, plus
  \<^verbatim>\<open>use_full_course_serializer=1\<close> if and only if the uuid is a true value, plus the type
  if and only if it is a non-empty string.
\<close>

theorem get_programs_fetch_arguments:
  assumes "enabled env" and "service_username env \<in> set (user_objects env)"
  shows "\<exists>req q.
           get_programs env uuid type w =
             (get_edx_api_data env req,
              w\<lparr>trace := trace w @ [UserLookup (service_username env), ApiCall req]\<rparr>) \<and>
           resource req = ''programs'' \<and>
           resource_id req = uuid \<and>
           cache_key req =
             (if is_cache_enabled env then
                Some (CACHE_KEY env @ ''.programs'' @
                  (case type of None \<Rightarrow> '''' | Some t \<Rightarrow> if t = '''' then '''' else ''.'' @ t))
              else None) \<and>
           querystring req = Some q \<and>
           q = fmap_of_list
                 ([(''marketable'', PInt 1), (''exclude_utm'', PInt 1)] @
                  (if truthy uuid then [(''use_full_course_serializer'', PInt 1)] else []) @
                  (case type of None \<Rightarrow> [] | Some t \<Rightarrow> if t = '''' then [] else [(''type'', PStr t)]))"
proof -
  let ?req = "programs_request env uuid type"
  have "resource ?req = ''programs''" and "resource_id ?req = uuid"
    by (simp_all add: programs_request_def Let_def)
  then show ?thesis
    using get_programs_enabled [OF assms, of uuid type w]
      programs_request_cache_key [of env uuid type]
      programs_request_querystring [of env uuid type]
    by blast
qed

theorem get_programs_fetch_arguments_witness:
  "enabled example_env \<and> service_username example_env \<in> set (user_objects example_env) \<and>
   fst (get_programs example_env (PStr ''u1'') (Some ''MM'') example_world) = RObj 0 \<and>
   map cache_key (api_calls (trace (snd (get_programs example_env (PStr ''u1'') (Some ''MM'') example_world))))
     = [Some ''catalog.programs.MM''] \<and>
   map querystring (api_calls (trace (snd (get_programs example_env (PStr ''u1'') (Some ''MM'') example_world))))
     = [Some (fmap_of_list [(''marketable'', PInt 1), (''exclude_utm'', PInt 1),
                            (''use_full_course_serializer'', PInt 1), (''type'', PStr ''MM'')])]"
proof -
  have en: "enabled example_env" and us: "service_username example_env \<in> set (user_objects example_env)"
    by (simp_all add: example_env_def)
  from get_programs_fetch_arguments [OF en us, of "PStr ''u1''" "Some ''MM''" example_world]
  obtain req q where
    "get_programs example_env (PStr ''u1'') (Some ''MM'') example_world =
       (get_edx_api_data example_env req,
        example_world\<lparr>trace := trace example_world @ [UserLookup (service_username example_env), ApiCall req]\<rparr>)"
    "resource req = ''programs''" "resource_id req = PStr ''u1''"
    "cache_key req = Some ''catalog.programs.MM''"
    "querystring req = Some q"
    "q = fmap_of_list [(''marketable'', PInt 1), (''exclude_utm'', PInt 1),
                            (''use_full_course_serializer'', PInt 1), (''type'', PStr ''MM'')]"
    by (auto simp: truthy_def example_env_def)
  then show ?thesis using en us
    by (simp add: example_world_def example_env_def example_fetch_def)
qed

text \<open>
  As stated, C6 fails for a type that is given but empty: the key has no suffix and the
  query string has no type.
\<close>

theorem empty_type_counterexample:
  "map cache_key (api_calls (trace (snd (get_programs example_env PNone (Some '''') example_world))))
     = [Some ''catalog.programs''] \<and>
   map cache_key (api_calls (trace (snd (get_programs example_env PNone (Some '''') example_world))))
     \<noteq> [Some (''catalog'' @ ''.programs.'' @ '''')] \<and>
   map querystring (api_calls (trace (snd (get_programs example_env PNone (Some '''') example_world))))
     = [Some (fmap_of_list [(''marketable'', PInt 1), (''exclude_utm'', PInt 1)])]"
  by (simp add: get_programs_def programs_request_def record_event_def Let_def truthy_def
        example_env_def example_world_def)

lemma heap_get_program_types [simp]: "heap (snd (get_program_types env w)) = heap w"
  by (simp add: get_program_types_def record_event_def Let_def)

lemma next_program_type_find:
  assumes "\<forall>t\<in>set ts. fmlookup (h t) ''name'' \<noteq> None"
  shows "next_program_type h name (map Ref ts) =
           (case find (\<lambda>t. fmlookup (h t) ''name'' = Some name) ts of
              None \<Rightarrow> Inl StopIteration
            | Some t \<Rightarrow> Inr (Ref t))"
  using assms
  by (induction ts) (auto simp: item_getitem_def dict_getitem_def split: option.splits)

text \<open>
  Claim C7. When \<open>get_program_types\<close> returns a list of program types that all have a
  name, \<open>get_program_type\<close> returns the first of them whose name equals the argument,
  and fails with StopIteration, handed to the caller, when there is none (in particular
  when the list is empty). It does nothing beyond what \<open>get_program_types\<close> does.
\<close>

theorem get_program_type_first_match:
  assumes "fst (get_program_types env w) = RList ts"
    and "\<forall>t\<in>set ts. fmlookup (heap w t) ''name'' \<noteq> None"
  shows "fst (get_program_type env name w) =
           (case find (\<lambda>t. fmlookup (heap w t) ''name'' = Some name) ts of
              None \<Rightarrow> Inl StopIteration
            | Some t \<Rightarrow> Inr (Ref t)) \<and>
         snd (get_program_type env name w) = snd (get_program_types env w)"
proof -
  obtain types w1 where g: "get_program_types env w = (types, w1)"
    by (cases "get_program_types env w")
  with assms(1) have t: "types = RList ts" by simp
  from g have h: "heap w1 = heap w"
    using heap_get_program_types [of env w] by simp
  show ?thesis
    using assms(2) by (simp add: get_program_type_def g t h iter_fetched_def next_program_type_find)
qed

theorem get_program_type_first_match_witness:
  "fst (get_program_types example_env example_world) = RList [2, 3] \<and>
   fmlookup (heap example_world 2) ''name'' \<noteq> None \<and>
   fmlookup (heap example_world 3) ''name'' \<noteq> None \<and>
   fst (get_program_type example_env (PStr ''XS'') example_world) = Inr (Ref 3) \<and>
   fst (get_program_type example_env (PStr ''Nano'') example_world) = Inl StopIteration \<and>
   fst (get_program_types (example_env\<lparr>enabled := False\<rparr>) example_world) = RList [] \<and>
   fst (get_program_type (example_env\<lparr>enabled := False\<rparr>) (PStr ''MM'') example_world)
     = Inl StopIteration"
proof -
  have a: "fst (get_program_types example_env example_world) = RList [2, 3]"
    by (simp add: get_program_types_def example_env_def example_fetch_def program_types_request_def Let_def)
  have b: "\<forall>t\<in>set [2, 3]. fmlookup (heap example_world t) ''name'' \<noteq> None"
    by (simp add: example_world_def example_heap_def)
  have c: "fst (get_program_types (example_env\<lparr>enabled := False\<rparr>) example_world) = RList []"
    by (simp add: get_program_types_def)
  have d: "\<forall>t\<in>set []. fmlookup (heap example_world t) ''name'' \<noteq> None"
    by simp
  have e: "fst (get_program_type (example_env\<lparr>enabled := False\<rparr>) (PStr ''MM'') example_world)
     = Inl StopIteration"
    using get_program_type_first_match [OF c d, of "PStr ''MM''"] by simp
  show ?thesis
    using a b c e get_program_type_first_match [OF a b, of "PStr ''XS''"]
      get_program_type_first_match [OF a b, of "PStr ''Nano''"]
    by (simp add: example_world_def example_heap_def)
qed

subsection \<open>Objects are never written to\<close>

lemma extends_refl [simp]: "extends w w"
  by (simp add: extends_def)

lemma extends_trans: "extends w w' \<Longrightarrow> extends w' w'' \<Longrightarrow> extends w w''"
  by (auto simp: extends_def)

lemma extends_record_event [simp]: "extends w (record_event e w') = extends w w'"
  by (simp add: extends_def record_event_def)

lemma extends_deepcopy: "extends w w' \<Longrightarrow> extends w (snd (deepcopy a w'))"
  by (auto simp: extends_def deepcopy_def)

lemma extends_setitem: "extends w w' \<Longrightarrow> next_free w \<le> c \<Longrightarrow> extends w (setitem c k v w')"
  by (auto simp: extends_def setitem_def)

lemma extends_cache_update [simp]: "extends w (w'\<lparr>cache := c\<rparr>) = extends w w'"
  by (simp add: extends_def)

lemma extends_get_programs: "extends w w' \<Longrightarrow> extends w (snd (get_programs env uuid type w'))"
  by (simp add: get_programs_def Let_def)

lemma extends_get_program_types: "extends w w' \<Longrightarrow> extends w (snd (get_program_types env w'))"
  by (simp add: get_program_types_def Let_def)

lemma extends_get_program_type: "extends w w' \<Longrightarrow> extends w (snd (get_program_type env name w'))"
  by (simp add: get_program_type_def split_def Let_def extends_get_program_types)

lemma extends_collect_instructors:
  "extends w w' \<Longrightarrow> extends w (snd (collect_instructors env ks d w'))"
  by (induction ks arbitrary: d w') (auto simp: Let_def split: sum.splits)

lemma extends_get_program_instructors:
  "extends w w' \<Longrightarrow> extends w (snd (get_program_instructors env program w'))"
  by (auto simp: get_program_instructors_def Let_def split_def extends_collect_instructors
           split: sum.splits)

lemma next_free_deepcopy [simp]: "next_free (snd (deepcopy a w)) = Suc (next_free w)"
  and fst_deepcopy [simp]: "fst (deepcopy a w) = next_free w"
  by (simp_all add: deepcopy_def)

lemma extends_deepcopy_list: "extends w w' \<Longrightarrow> extends w (snd (deepcopy_list as memo w'))"
proof (induction as arbitrary: memo w')
  case Nil
  then show ?case by simp
next
  case (Cons a as)
  show ?case
  proof (cases "map_of memo a")
    case None
    have "extends w (snd (deepcopy a w'))" using Cons.prems by (rule extends_deepcopy)
    from Cons.IH [OF this] show ?thesis using None
      by (simp add: split_def Let_def)
  next
    case (Some c)
    with Cons.IH [OF Cons.prems] show ?thesis by (simp add: split_def Let_def)
  qed
qed

lemma extends_deepcopy_fetched: "extends w w' \<Longrightarrow> extends w (snd (deepcopy_fetched r w'))"
  by (cases r) (auto simp: deepcopy_fetched_def split_def Let_def extends_deepcopy extends_deepcopy_list)

lemma add_programs_with_type_extends:
  "extends w w' \<Longrightarrow>
   extends w (snd (add_programs_with_type include_types program_types ps acc w'))"
proof (induction ps arbitrary: acc w')
  case Nil
  then show ?case by simp
next
  case (Cons p ps)
  show ?case
  proof (cases "program_selected (heap w') include_types p")
    case (Inl e)
    then show ?thesis using Cons.prems by simp
  next
    case (Inr b)
    show ?thesis
    proof (cases b)
      case False
      with Inr Cons show ?thesis by simp
    next
      case True
      show ?thesis
      proof (cases p)
        case (Key s)
        with Inr True Cons.prems show ?thesis by simp
      next
        case (Ref a)
        let ?w1 = "snd (deepcopy a w')"
        have e1: "extends w ?w1" using Cons.prems by (rule extends_deepcopy)
        have c: "next_free w \<le> next_free w'" using Cons.prems by (simp add: extends_def)
        have "extends w (setitem (next_free w') ''type'' v ?w1)" for v
          using e1 c by (rule extends_setitem)
        then show ?thesis
          using Inr True Ref e1 Cons.IH
          by (auto simp: split_def Let_def split: sum.splits)
      qed
    qed
  qed
qed

lemma get_programs_with_type_extends:
  "extends w (snd (get_programs_with_type env include_types w))"
proof -
  have 1: "extends w (snd (get_programs env PNone None w))"
    by (rule extends_get_programs) simp
  then have 2: "extends w (snd (get_program_types env (snd (get_programs env PNone None w))))"
    by (rule extends_get_program_types)
  show ?thesis
    using 1 2 add_programs_with_type_extends [OF 2]
    by (auto simp: get_programs_with_type_def split_def Let_def split: sum.splits)
qed


lemma next_free_mono: "extends w w' \<Longrightarrow> next_free w \<le> next_free w'"
  by (simp add: extends_def)

lemma add_programs_with_type_fresh:
  "fst (add_programs_with_type include_types program_types ps acc w) = Inr cs \<Longrightarrow>
   set cs \<subseteq> set acc \<union> {c. next_free w \<le> c}"
proof (induction ps arbitrary: acc w)
  case Nil
  then show ?case by auto
next
  case (Cons p ps)
  show ?case
  proof (cases "program_selected (heap w) include_types p")
    case (Inl e)
    then show ?thesis using Cons.prems by simp
  next
    case (Inr b)
    show ?thesis
    proof (cases b)
      case False
      with Inr Cons show ?thesis by simp
    next
      case True
      show ?thesis
      proof (cases p)
        case (Key s)
        with Inr True Cons.prems show ?thesis by simp
      next
        case (Ref a)
        obtain t pt where
          r: "fst (add_programs_with_type include_types program_types ps (acc @ [next_free w])
                 (setitem (next_free w) ''type'' (item_value (heap (snd (deepcopy a w))) pt)
                    (snd (deepcopy a w)))) = Inr cs"
          using Cons.prems Inr True Ref
          by (auto simp: split_def Let_def split: sum.splits)
        have "next_free (setitem (next_free w) ''type'' v (snd (deepcopy a w))) = Suc (next_free w)" for v
          by (simp add: setitem_def)
        with Cons.IH [OF r] show ?thesis by auto
      qed
    qed
  qed
qed

lemma attach_type_and_instructors_extends:
  assumes "extends w w'"
  shows "extends w (snd (attach_type_and_instructors env r w'))"
proof (cases r)
  case (RList as)
  then show ?thesis
    using extends_deepcopy_fetched [OF assms, of r]
    by (simp add: attach_type_and_instructors_def split_def)
next
  case (RObj a)
  let ?c = "next_free w'"
  let ?w1 = "snd (deepcopy a w')"
  have d: "deepcopy_fetched (RObj a) w' = (RObj ?c, ?w1)"
    by (simp add: deepcopy_fetched_def split_def)
  have e1: "extends w ?w1" using assms by (rule extends_deepcopy)
  have c: "next_free w \<le> ?c" using assms by (rule next_free_mono)
  have e2: "extends w (snd (get_program_type env n ?w1))" for n
    using e1 by (rule extends_get_program_type)
  have e3: "extends w (setitem ?c ''type'' v (snd (get_program_type env n ?w1)))" for n v
    using e2 c by (rule extends_setitem)
  have e4: "extends w (snd (get_program_instructors env pr
               (setitem ?c ''type'' v (snd (get_program_type env n ?w1)))))" for n v pr
    using e3 by (rule extends_get_program_instructors)
  have e5: "extends w (setitem ?c ''instructors'' i (snd (get_program_instructors env pr
               (setitem ?c ''type'' v (snd (get_program_type env n ?w1))))))" for n v pr i
    using e4 c by (rule extends_setitem)
  show ?thesis
    using RObj e1 e2 e4 e5
    by (auto simp: attach_type_and_instructors_def d Let_def split_def split: sum.splits)
qed

lemma attach_type_and_instructors_fresh:
  "fst (attach_type_and_instructors env r w) = Inr (Some c) \<Longrightarrow> c = next_free w"
  by (cases r)
     (auto simp: attach_type_and_instructors_def deepcopy_fetched_def Let_def split_def
           split: sum.splits)

lemma get_program_with_type_and_instructors_extends:
  "extends w (snd (get_program_with_type_and_instructors env slug w))"
proof -
  have 1: "extends w (snd (get_programs env PNone None w))"
    by (rule extends_get_programs) simp
  then have 2: "extends w (snd (get_programs env u None (snd (get_programs env PNone None w))))" for u
    by (rule extends_get_programs)
  show ?thesis
    using 1 attach_type_and_instructors_extends [OF 2]
    by (auto simp: get_program_with_type_and_instructors_def split_def Let_def
             split: sum.splits option.splits)
qed

lemma get_program_with_type_and_instructors_fresh:
  assumes "fst (get_program_with_type_and_instructors env slug w) = Inr (Some c)"
  shows "next_free w \<le> c"
proof -
  have 1: "extends w (snd (get_programs env PNone None w))"
    by (rule extends_get_programs) simp
  then have 2: "extends w (snd (get_programs env u None (snd (get_programs env PNone None w))))" for u
    by (rule extends_get_programs)
  from assms obtain u where
    "fst (attach_type_and_instructors env
            (fst (get_programs env u None (snd (get_programs env PNone None w))))
            (snd (get_programs env u None (snd (get_programs env PNone None w))))) = Inr (Some c)"
    by (auto simp: get_program_with_type_and_instructors_def split_def Let_def
             split: sum.splits option.splits if_splits)
  then have "c = next_free (snd (get_programs env u None (snd (get_programs env PNone None w))))"
    by (rule attach_type_and_instructors_fresh)
  with next_free_mono [OF 2 [of u]] show ?thesis by simp
qed

lemma get_programs_with_type_fresh:
  assumes "fst (get_programs_with_type env include_types w) = Inr cs"
  shows "set cs \<subseteq> {c. next_free w \<le> c}"
proof -
  have 1: "extends w (snd (get_programs env PNone None w))"
    by (rule extends_get_programs) simp
  then have 2: "extends w (snd (get_program_types env (snd (get_programs env PNone None w))))"
    by (rule extends_get_program_types)
  show ?thesis
  proof (cases "fetched_truthy (heap (snd (get_programs env PNone None w))) (fst (get_programs env PNone None w))")
    case False
    with assms show ?thesis by (simp add: get_programs_with_type_def split_def Let_def)
  next
    case True
    with assms obtain d where
      "fst (add_programs_with_type include_types d
         (iter_fetched (heap (snd (get_program_types env (snd (get_programs env PNone None w)))))
            (fst (get_programs env PNone None w))) []
         (snd (get_program_types env (snd (get_programs env PNone None w))))) = Inr cs"
      by (auto simp: get_programs_with_type_def split_def Let_def split: sum.splits)
    from add_programs_with_type_fresh [OF this] next_free_mono [OF 2]
    show ?thesis by auto
  qed
qed


lemma get_program_types_allocated:
  "fetched_allocated env w \<Longrightarrow> allocated w (fst (get_program_types env w'))"
  by (simp add: get_program_types_def Let_def fetched_allocated_def allocated_def)

lemma get_programs_allocated:
  "fetched_allocated env w \<Longrightarrow> allocated w (fst (get_programs env uuid type w'))"
  by (simp add: get_programs_def Let_def fetched_allocated_def allocated_def)

lemma extends_unchanged: "extends w w' \<Longrightarrow> allocated w r \<Longrightarrow> unchanged w w' r"
  by (cases r) (auto simp: extends_def allocated_def unchanged_def list_all_iff)

lemmas model_defs =
  get_programs_def get_program_types_def get_program_type_def programs_request_def
  program_types_request_def create_catalog_api_client_def record_event_def
  get_programs_with_type_def get_program_with_type_and_instructors_def
  attach_type_and_instructors_def deepcopy_fetched_def deepcopy_def setitem_def
  iter_fetched_def item_getitem_def item_truthy_def item_value_def fetched_truthy_def
  dict_getitem_def py_getitem_def py_get_def py_iter_def truthy_def hashable_def
  program_selected_def lookup_program_type_def get_program_instructors_def
  instructors_cache_key_def cache_get_def get_program_course_run_keys_def set_add_def
  add_course_instructors_def descriptor_instructors_def dict_update_def
  example_env_def example_world_def example_heap_def example_fetch_def example_course_def
  no_types_env_def one_type_env_def
  stale_world_def emptied_world_def missing_course_env_def no_info_env_def
  instructor_name_def course_instructors_def has_instructor_info_def
  list_items_def get_field_def program_course_runs_def run_key_def
  instructor_wellformed_def instructors_wellformed_def
  Let_def split_def

text \<open>
  Claim C2. Neither \<open>get_programs_with_type\<close> nor
  \<open>get_program_with_type_and_instructors\<close> writes to an object that existed before the
  call, whatever the call does and whether or not it fails: every allocated object, and
  so every program handed out by \<open>get_programs\<close> or by the re-fetch, has the contents it
  had (its \<^verbatim>\<open>type\<close> is still the name and it has gained no \<^verbatim>\<open>instructors\<close>). The
  objects that are returned are new ones: the attached type and instructors are in the
  copies only. When the fetch utility hands out allocated objects, this holds of every
  object that \<open>get_programs\<close> returns, with or without a uuid.
\<close>

theorem enrichment_leaves_fetched_objects_unchanged:
  "(\<forall>a<next_free w. heap (snd (get_programs_with_type env include_types w)) a = heap w a) \<and>
   (\<forall>cs. fst (get_programs_with_type env include_types w) = Inr cs \<longrightarrow>
      (\<forall>c\<in>set cs. next_free w \<le> c)) \<and>
   (\<forall>a<next_free w.
      heap (snd (get_program_with_type_and_instructors env marketing_slug w)) a = heap w a) \<and>
   (\<forall>c. fst (get_program_with_type_and_instructors env marketing_slug w) = Inr (Some c) \<longrightarrow>
      next_free w \<le> c) \<and>
   (fetched_allocated env w \<longrightarrow>
      unchanged w (snd (get_programs_with_type env include_types w))
        (fst (get_programs env PNone None w)) \<and>
      (\<forall>uuid. unchanged w (snd (get_program_with_type_and_instructors env marketing_slug w))
        (fst (get_programs env uuid None w))))"
  using get_programs_with_type_extends [of w env include_types]
    get_program_with_type_and_instructors_extends [of w env marketing_slug]
    get_programs_with_type_fresh [of env include_types w]
    get_program_with_type_and_instructors_fresh [of env marketing_slug w]
    get_programs_allocated [of env w _ None w]
  by (auto simp: extends_def intro!: extends_unchanged)

theorem enrichment_leaves_fetched_objects_unchanged_witness:
  "fetched_allocated example_env example_world \<and>
   fst (get_programs example_env PNone None example_world) = RList [0, 1] \<and>
   unchanged example_world (snd (get_programs_with_type example_env None example_world))
     (RList [0, 1]) \<and>
   unchanged example_world
     (snd (get_program_with_type_and_instructors example_env ''ds'' example_world)) (RObj 0) \<and>
   fst (get_programs_with_type example_env None example_world) = Inr [4, 5] \<and>
   heap (snd (get_programs_with_type example_env None example_world)) 0 = heap example_world 0 \<and>
   fmlookup (heap (snd (get_programs_with_type example_env None example_world)) 0) ''type''
     = Some (PStr ''MM'') \<and>
   fmlookup (heap (snd (get_programs_with_type example_env None example_world)) 4) ''type''
     = Some (PDict (heap example_world 2)) \<and>
   fst (get_program_with_type_and_instructors example_env ''ds'' example_world) = Inr (Some 4) \<and>
   heap (snd (get_program_with_type_and_instructors example_env ''ds'' example_world)) 0
     = heap example_world 0 \<and>
   fmlookup (heap (snd (get_program_with_type_and_instructors example_env ''ds'' example_world)) 0)
     ''instructors'' = None \<and>
   fmlookup (heap (snd (get_program_with_type_and_instructors example_env ''ds'' example_world)) 4)
     ''instructors''
     = Some (PList [PDict (fmap_of_list [(''name'', PStr ''Bob''), (''organization'', PStr ''X'')]),
                    PDict (fmap_of_list [(''name'', PStr ''Ann''), (''organization'', PStr ''X'')])])"
proof -
  have n: "(0::nat) < next_free example_world"
    by (simp add: example_world_def)
  have al: "fetched_allocated example_env example_world"
    by (simp add: fetched_allocated_def allocated_def example_env_def example_fetch_def
          example_world_def)
  have r: "fst (get_programs example_env (PStr ''u1'') None example_world) = RObj 0"
    by (simp add: model_defs)
  have f: "heap (snd (get_programs_with_type example_env None example_world)) 0 = heap example_world 0"
    "heap (snd (get_program_with_type_and_instructors example_env ''ds'' example_world)) 0
       = heap example_world 0"
    using n enrichment_leaves_fetched_objects_unchanged [of example_world example_env None "''ds''"]
    by blast+
  have h0: "fmlookup (heap example_world 0) ''type'' = Some (PStr ''MM'')"
    "fmlookup (heap example_world 0) ''instructors'' = None"
    by (simp_all add: example_world_def example_heap_def)
  have 1: "fst (get_programs example_env PNone None example_world) = RList [0, 1]"
    by (simp add: model_defs)
  have 2: "fst (get_programs_with_type example_env None example_world) = Inr [4, 5]"
    by (simp add: model_defs)
  have 3: "fmlookup (heap (snd (get_programs_with_type example_env None example_world)) 4) ''type''
     = Some (PDict (heap example_world 2))"
    by (simp add: model_defs)
  have 4: "fst (get_program_with_type_and_instructors example_env ''ds'' example_world) = Inr (Some 4)"
    by (simp add: model_defs)
  have 5: "fmlookup (heap (snd (get_program_with_type_and_instructors example_env ''ds'' example_world)) 4)
     ''instructors''
     = Some (PList [PDict (fmap_of_list [(''name'', PStr ''Bob''), (''organization'', PStr ''X'')]),
                    PDict (fmap_of_list [(''name'', PStr ''Ann''), (''organization'', PStr ''X'')])])"
    by (simp add: model_defs)
  have u: "unchanged example_world (snd (get_programs_with_type example_env None example_world))
     (RList [0, 1])"
    "unchanged example_world
     (snd (get_program_with_type_and_instructors example_env ''ds'' example_world)) (RObj 0)"
    using al enrichment_leaves_fetched_objects_unchanged [of example_world example_env None "''ds''"]
    unfolding 1 [symmetric] r [symmetric] by blast+
  show ?thesis
    using al u f h0 1 2 3 4 5 by simp
qed

subsection \<open>Programs with their types\<close>

lemma fst_get_program_types_world: "fst (get_program_types env w) = fst (get_program_types env w')"
  by (simp add: get_program_types_def Let_def)

lemma get_programs_fields [simp]:
  "heap (snd (get_programs env uuid type w)) = heap w"
  "next_free (snd (get_programs env uuid type w)) = next_free w"
  "cache (snd (get_programs env uuid type w)) = cache w"
  by (simp_all add: get_programs_def record_event_def Let_def)

lemma get_program_types_fields [simp]:
  "next_free (snd (get_program_types env w)) = next_free w"
  "cache (snd (get_program_types env w)) = cache w"
  by (simp_all add: get_program_types_def record_event_def Let_def)

lemma find_append_if:
  "find P (xs @ ys) = (case find P xs of Some x \<Rightarrow> Some x | None \<Rightarrow> find P ys)"
  by (induction xs) auto

lemma type_named_Cons:
  "type_named h (t # ts) n =
     (case type_named h ts n of
        Some x \<Rightarrow> Some x
      | None \<Rightarrow> if fmlookup (h t) ''name'' = Some n then Some t else None)"
  by (simp add: type_named_def find_append_if split: option.splits)

lemma type_named_in_set: "type_named h ts n = Some t \<Longrightarrow> t \<in> set ts"
proof -
  assume "type_named h ts n = Some t"
  then have "t \<in> set (rev ts)"
    unfolding type_named_def by (metis find_Some_iff nth_mem)
  then show ?thesis by simp
qed

lemma program_types_by_name_map_of:
  assumes "\<forall>t\<in>set ts. \<exists>n. fmlookup (h t) ''name'' = Some n \<and> hashable n"
  shows "\<exists>d. program_types_by_name h (map Ref ts) d0 = Inr d \<and>
             (\<forall>n. map_of d n =
                (case type_named h ts n of Some t \<Rightarrow> Some (Ref t) | None \<Rightarrow> map_of d0 n))"
  using assms
proof (induction ts arbitrary: d0)
  case Nil
  then show ?case by (simp add: type_named_def)
next
  case (Cons t ts)
  then obtain m where m: "fmlookup (h t) ''name'' = Some m" "hashable m" by auto
  from Cons.IH [of "AList.update m (Ref t) d0"] Cons.prems
  obtain d where d: "program_types_by_name h (map Ref ts) (AList.update m (Ref t) d0) = Inr d"
    "\<forall>n. map_of d n = (case type_named h ts n of Some t \<Rightarrow> Some (Ref t)
                        | None \<Rightarrow> map_of (AList.update m (Ref t) d0) n)"
    by auto
  show ?case
    using m d
    by (auto simp: item_getitem_def dict_getitem_def type_named_Cons update_conv'
             split: option.splits)
qed


lemma program_selected_Ref:
  assumes "fmlookup (h p) ''type'' = Some n"
  shows "program_selected h include_types (Ref p) = Inr (selected include_types (h p))"
  using assms
  by (auto simp: program_selected_def selected_def item_getitem_def dict_getitem_def
           split: option.splits)

lemma deepcopy_fields [simp]:
  "trace (snd (deepcopy a w)) = trace w"
  "cache (snd (deepcopy a w)) = cache w"
  "heap (snd (deepcopy a w)) = (heap w)(next_free w := heap w a)"
  by (simp_all add: deepcopy_def)

lemma setitem_fields [simp]:
  "trace (setitem c k v w) = trace w"
  "cache (setitem c k v w) = cache w"
  "next_free (setitem c k v w) = next_free w"
  "heap (setitem c k v w) = (heap w)(c := fmupd k v (heap w c))"
  by (simp_all add: setitem_def)

lemma add_programs_with_type_Ref_selected:
  assumes "program_selected (heap w) include_types (Ref p) = Inr True"
    and "fmlookup (heap w p) ''type'' = Some n" and "p \<noteq> next_free w"
  shows "add_programs_with_type include_types d (Ref p # rest) acc w =
           (case lookup_program_type d n of
              Inl e \<Rightarrow> (Inl e, snd (deepcopy p w))
            | Inr pt \<Rightarrow>
                add_programs_with_type include_types d rest (acc @ [next_free w])
                  (setitem (next_free w) ''type'' (item_value (heap (snd (deepcopy p w))) pt)
                     (snd (deepcopy p w))))"
  using assms by (simp add: split_def Let_def dict_getitem_def split: sum.splits)

lemma add_programs_with_type_key_error:
  assumes "\<forall>a<n0. heap w a = h0 a" and "n0 \<le> next_free w"
    and "\<forall>p\<in>set ps. p < n0 \<and> (\<exists>n. fmlookup (h0 p) ''type'' = Some n \<and> hashable n)"
    and "\<exists>p\<in>set ps. selected include_types (h0 p) \<and>
           (\<exists>n. fmlookup (h0 p) ''type'' = Some n \<and> map_of d n = None)"
  shows "fst (add_programs_with_type include_types d (map Ref ps) acc w) = Inl KeyError"
  using assms
proof (induction ps arbitrary: acc w)
  case Nil
  then show ?case by simp
next
  case (Cons p ps)
  from Cons.prems(3) obtain n where n: "p < n0" "fmlookup (h0 p) ''type'' = Some n" "hashable n"
    by auto
  have hp: "heap w p = h0 p" using Cons.prems(1) n(1) by simp
  have sel: "program_selected (heap w) include_types (Ref p) = Inr (selected include_types (h0 p))"
    using program_selected_Ref [of "heap w" p n include_types] n(2) hp by simp
  have ne: "p \<noteq> next_free w" using n(1) Cons.prems(2) by simp
  show ?case
  proof (cases "selected include_types (h0 p)")
    case False
    with Cons.prems(4) have
      "\<exists>p\<in>set ps. selected include_types (h0 p) \<and>
           (\<exists>n. fmlookup (h0 p) ''type'' = Some n \<and> map_of d n = None)"
      by auto
    with Cons.IH [OF Cons.prems(1) Cons.prems(2)] Cons.prems(3)
    have "fst (add_programs_with_type include_types d (map Ref ps) acc w) = Inl KeyError"
      by simp
    then show ?thesis using sel False by simp
  next
    case True
    note step = add_programs_with_type_Ref_selected
      [of w include_types p n d "map Ref ps" acc, OF _ _ ne]
    show ?thesis
    proof (cases "map_of d n")
      case None
      then show ?thesis
        using step sel True n(2,3) hp by (simp add: lookup_program_type_def)
    next
      case (Some pt)
      let ?w' = "setitem (next_free w) ''type'' (item_value (heap (snd (deepcopy p w))) pt)
                     (snd (deepcopy p w))"
      have a: "\<forall>a<n0. heap ?w' a = h0 a"
        using Cons.prems(1,2) by simp
      have b: "n0 \<le> next_free ?w'"
        using Cons.prems(2) by simp
      have c: "\<exists>p\<in>set ps. selected include_types (h0 p) \<and>
           (\<exists>n. fmlookup (h0 p) ''type'' = Some n \<and> map_of d n = None)"
        using Cons.prems(4) Some n(2) by auto
      have "fst (add_programs_with_type include_types d (map Ref ps) (acc @ [next_free w]) ?w')
              = Inl KeyError"
        using Cons.IH [OF a b _ c] Cons.prems(3) by simp
      then show ?thesis
        using step sel True n(2,3) hp Some by (simp add: lookup_program_type_def)
    qed
  qed
qed


lemma upt_add_Suc: "[c ..< c + Suc k] = c # [Suc c ..< Suc c + k]"
  by (subst upt_rec) simp

lemma add_programs_with_type_ok:
  assumes "\<forall>a<n0. heap w a = h0 a" and "n0 \<le> next_free w"
    and "\<forall>p\<in>set ps. p < n0 \<and> (\<exists>n. fmlookup (h0 p) ''type'' = Some n \<and> hashable n)"
    and "\<forall>p\<in>set ps. selected include_types (h0 p) \<longrightarrow>
           (\<exists>n t. fmlookup (h0 p) ''type'' = Some n \<and> map_of d n = Some (Ref t) \<and> t < n0)"
  shows "\<exists>cs w'.
           add_programs_with_type include_types d (map Ref ps) acc w = (Inr (acc @ cs), w') \<and>
           cs = [next_free w ..< next_free w + length (filter (\<lambda>p. selected include_types (h0 p)) ps)] \<and>
           next_free w' = next_free w + length (filter (\<lambda>p. selected include_types (h0 p)) ps) \<and>
           list_all2
             (\<lambda>c p. \<exists>n t. fmlookup (h0 p) ''type'' = Some n \<and> map_of d n = Some (Ref t) \<and>
                      heap w' c = fmupd ''type'' (PDict (h0 t)) (h0 p))
             cs (filter (\<lambda>p. selected include_types (h0 p)) ps) \<and>
           (\<forall>a<next_free w. heap w' a = heap w a) \<and>
           trace w' = trace w \<and> cache w' = cache w"
  using assms
proof (induction ps arbitrary: acc w)
  case Nil
  then show ?case by simp
next
  case (Cons p ps)
  let ?sel = "\<lambda>p. selected include_types (h0 p)"
  let ?R = "\<lambda>h c p. \<exists>n t. fmlookup (h0 p) ''type'' = Some n \<and> map_of d n = Some (Ref t) \<and>
                      h c = fmupd ''type'' (PDict (h0 t)) (h0 p)"
  from Cons.prems(3) obtain n where n: "p < n0" "fmlookup (h0 p) ''type'' = Some n" "hashable n"
    by auto
  have hp: "heap w p = h0 p" using Cons.prems(1) n(1) by simp
  have sel: "program_selected (heap w) include_types (Ref p) = Inr (?sel p)"
    using program_selected_Ref [of "heap w" p n include_types] n(2) hp by simp
  have ne: "p \<noteq> next_free w" using n(1) Cons.prems(2) by simp
  have rest3: "\<forall>p\<in>set ps. p < n0 \<and> (\<exists>n. fmlookup (h0 p) ''type'' = Some n \<and> hashable n)"
    using Cons.prems(3) by simp
  have rest4: "\<forall>p\<in>set ps. ?sel p \<longrightarrow>
           (\<exists>n t. fmlookup (h0 p) ''type'' = Some n \<and> map_of d n = Some (Ref t) \<and> t < n0)"
    using Cons.prems(4) by simp
  show ?case
  proof (cases "?sel p")
    case False
    from Cons.IH [OF Cons.prems(1) Cons.prems(2) rest3 rest4, of acc]
    show ?thesis using sel False by simp
  next
    case True
    with Cons.prems(4) n(2) obtain t where t: "map_of d n = Some (Ref t)" "t < n0"
      by auto
    let ?c = "next_free w"
    let ?w1 = "snd (deepcopy p w)"
    let ?w2 = "setitem ?c ''type'' (item_value (heap ?w1) (Ref t)) ?w1"
    have step: "add_programs_with_type include_types d (map Ref (p # ps)) acc w =
                  add_programs_with_type include_types d (map Ref ps) (acc @ [?c]) ?w2"
      using add_programs_with_type_Ref_selected [of w include_types p n d "map Ref ps" acc, OF _ _ ne]
        sel True n(2,3) hp t(1)
      by (simp add: lookup_program_type_def)
    have tc: "t \<noteq> ?c" using t(2) Cons.prems(2) by simp
    have a: "\<forall>a<n0. heap ?w2 a = h0 a"
      using Cons.prems(1,2) by simp
    have b: "n0 \<le> next_free ?w2"
      using Cons.prems(2) by simp
    have ht: "heap w t = h0 t" using Cons.prems(1) t(2) by simp
    have hc: "heap ?w2 ?c = fmupd ''type'' (PDict (h0 t)) (h0 p)"
      using tc hp ht by (simp add: item_value_def)
    have nf: "next_free ?w2 = Suc ?c" by simp
    from Cons.IH [OF a b rest3 rest4, of "acc @ [?c]"]
    obtain cs w' where r:
      "add_programs_with_type include_types d (map Ref ps) (acc @ [?c]) ?w2 = (Inr ((acc @ [?c]) @ cs), w')"
      "cs = [Suc ?c ..< Suc ?c + length (filter ?sel ps)]"
      "next_free w' = Suc ?c + length (filter ?sel ps)"
      "list_all2 (?R (heap w')) cs (filter ?sel ps)"
      "\<forall>a<Suc ?c. heap w' a = heap ?w2 a"
      "trace w' = trace ?w2" "cache w' = cache ?w2"
      unfolding nf by blast
    have frame: "\<forall>a<?c. heap w' a = heap w a"
      using r(5) by simp
    have hc': "heap w' ?c = fmupd ''type'' (PDict (h0 t)) (h0 p)"
      using r(5) hc by simp
    have "filter ?sel (p # ps) = p # filter ?sel ps"
      using True by simp
    then have cs: "?c # cs = [?c ..< ?c + length (filter ?sel (p # ps))]"
      unfolding r(2) by (simp only: length_Cons upt_add_Suc)
    have la: "list_all2 (?R (heap w')) (?c # cs) (filter ?sel (p # ps))"
      using r(4) True hc' n(2) t(1) by simp
    have "add_programs_with_type include_types d (map Ref (p # ps)) acc w = (Inr (acc @ (?c # cs)), w')"
      using step r(1) by simp
    moreover have "next_free w' = ?c + length (filter ?sel (p # ps))"
      using r(3) True by simp
    moreover have "trace w' = trace w" "cache w' = cache w"
      using r(6,7) by simp_all
    ultimately show ?thesis
      using cs la frame by blast
  qed
qed


lemma api_calls_append [simp]: "api_calls (xs @ ys) = api_calls xs @ api_calls ys"
  by (induction xs rule: api_calls.induct) simp_all

lemma get_programs_trace:
  "trace (snd (get_programs env uuid type w)) =
     trace w @
       (if enabled env then
          UserLookup (service_username env) #
            (if service_username env \<in> set (user_objects env)
             then [ApiCall (programs_request env uuid type)] else [])
        else [])"
  by (simp add: get_programs_def record_event_def Let_def)

lemma get_program_types_trace:
  "trace (snd (get_program_types env w)) =
     trace w @
       (if enabled env then
          UserLookup (service_username env) #
            (if service_username env \<in> set (user_objects env)
             then [ApiCall (program_types_request env)] else [])
        else [])"
  by (simp add: get_program_types_def record_event_def Let_def)

lemma get_programs_nonempty:
  assumes "fst (get_programs env uuid type w) = RList ps" and "ps \<noteq> []"
  shows "enabled env \<and> service_username env \<in> set (user_objects env)"
proof (rule ccontr)
  assume "\<not> (enabled env \<and> service_username env \<in> set (user_objects env))"
  then have "fst (get_programs env uuid type w) = RList []"
    by (auto simp: get_programs_def Let_def)
  with assms show False by simp
qed

lemma resource_requests [simp]:
  "resource (programs_request env uuid type) = ''programs''"
  "resource (program_types_request env) = ''program_types''"
  by (simp_all add: programs_request_def program_types_request_def Let_def)

lemma type_named_None_iff:
  "type_named h ts n = None \<longleftrightarrow> (\<forall>t\<in>set ts. fmlookup (h t) ''name'' \<noteq> Some n)"
  by (auto simp: type_named_def find_None_iff)

lemma type_named_Some_name:
  "type_named h ts n = Some t \<Longrightarrow> fmlookup (h t) ''name'' = Some n"
  by (auto simp: type_named_def find_Some_iff)

lemma get_programs_with_type_unfold:
  assumes "fst (get_programs env PNone None w) = RList ps" and "ps \<noteq> []"
    and "fst (get_program_types env w) = RList ts"
    and "program_types_by_name (heap w) (map Ref ts) [] = Inr d"
  shows "get_programs_with_type env include_types w =
           add_programs_with_type include_types d (map Ref ps) []
             (snd (get_program_types env (snd (get_programs env PNone None w))))"
proof -
  let ?w1 = "snd (get_programs env PNone None w)"
  have t: "fst (get_program_types env ?w1) = RList ts"
    using assms(3) fst_get_program_types_world [of env ?w1 w] by simp
  show ?thesis
    using assms(1,2,4) t
    by (simp add: get_programs_with_type_def split_def Let_def fetched_truthy_def iter_fetched_def)
qed

lemma new_events_append: "trace w' = trace w @ es \<Longrightarrow> new_events w w' = es"
  by (simp add: new_events_def)

text \<open>
  Claim C4, as amended. Let \<open>get_programs\<close> return a list of allocated programs, each
  with a hashable type name, and \<open>get_program_types\<close> a list of allocated program types,
  each with a hashable name, and let the type name of every program that passes the
  filter be the name of one of the program types. Then \<open>get_programs_with_type\<close>
  returns, in the order of \<open>get_programs\<close>, one new object for each program that passes
  the filter (every program when the filter is empty or absent) and none for the others;
  the object is the program with its \<^verbatim>\<open>type\<close> replaced by the program type of that name.
  The program types are fetched once when the list of programs is not empty, and not at
  all when it is empty.
\<close>

theorem get_programs_with_type_result:
  assumes "fst (get_programs env PNone None w) = RList ps"
    and "fst (get_program_types env w) = RList ts"
    and "\<forall>p\<in>set ps. p < next_free w \<and> (\<exists>n. fmlookup (heap w p) ''type'' = Some n \<and> hashable n)"
    and "\<forall>t\<in>set ts. t < next_free w \<and> (\<exists>n. fmlookup (heap w t) ''name'' = Some n \<and> hashable n)"
    and "\<forall>p\<in>set ps. selected include_types (heap w p) \<longrightarrow>
           (\<exists>n t. fmlookup (heap w p) ''type'' = Some n \<and> t \<in> set ts \<and>
                  fmlookup (heap w t) ''name'' = Some n)"
  shows "\<exists>cs w'.
           get_programs_with_type env include_types w = (Inr cs, w') \<and>
           cs = [next_free w ..<
                  next_free w + length (filter (\<lambda>p. selected include_types (heap w p)) ps)] \<and>
           list_all2
             (\<lambda>c p. \<exists>n t. fmlookup (heap w p) ''type'' = Some n \<and>
                      type_named (heap w) ts n = Some t \<and>
                      fmlookup (heap w t) ''name'' = Some n \<and>
                      heap w' c = fmupd ''type'' (PDict (heap w t)) (heap w p))
             cs (filter (\<lambda>p. selected include_types (heap w p)) ps) \<and>
           filter (\<lambda>req. resource req = ''program_types'') (api_calls (new_events w w')) =
             (if ps = [] then [] else [program_types_request env])"
proof (cases "ps = []")
  case True
  let ?w1 = "snd (get_programs env PNone None w)"
  have "get_programs_with_type env include_types w = (Inr [], ?w1)"
    using assms(1) True
    by (simp add: get_programs_with_type_def split_def Let_def fetched_truthy_def)
  moreover have "filter (\<lambda>req. resource req = ''program_types'') (api_calls (new_events w ?w1)) = []"
    using new_events_append [OF get_programs_trace [of env PNone None w]] by simp
  ultimately show ?thesis using True by simp
next
  case False
  let ?w1 = "snd (get_programs env PNone None w)"
  let ?w2 = "snd (get_program_types env ?w1)"
  let ?sel = "\<lambda>p. selected include_types (heap w p)"
  have names: "\<forall>t\<in>set ts. \<exists>n. fmlookup (heap w t) ''name'' = Some n \<and> hashable n"
    using assms(4) by blast
  from program_types_by_name_map_of [OF names, of "[]"]
  obtain d where d: "program_types_by_name (heap w) (map Ref ts) [] = Inr d"
    "\<forall>n. map_of d n =
       (case type_named (heap w) ts n of Some t \<Rightarrow> Some (Ref t) | None \<Rightarrow> map_of [] n)"
    by blast
  have found: "\<exists>n t. fmlookup (heap w p) ''type'' = Some n \<and> map_of d n = Some (Ref t) \<and>
                 t < next_free w"
    if "p \<in> set ps" "?sel p" for p
  proof -
    from assms(5) that obtain n t0 where
      n: "fmlookup (heap w p) ''type'' = Some n" "t0 \<in> set ts" "fmlookup (heap w t0) ''name'' = Some n"
      by blast
    then have "type_named (heap w) ts n \<noteq> None"
      by (auto simp: type_named_None_iff)
    then obtain t where t: "type_named (heap w) ts n = Some t" by auto
    then have "t \<in> set ts" by (rule type_named_in_set)
    then have "t < next_free w" using assms(4) by blast
    moreover have "map_of d n = Some (Ref t)" using d(2) t by simp
    ultimately show ?thesis using n(1) by blast
  qed
  then have ok: "\<forall>p\<in>set ps. ?sel p \<longrightarrow>
           (\<exists>n t. fmlookup (heap w p) ''type'' = Some n \<and> map_of d n = Some (Ref t) \<and>
                  t < next_free w)"
    by blast
  have a: "\<forall>a<next_free w. heap ?w2 a = heap w a" by simp
  have b: "next_free w \<le> next_free ?w2" by simp
  from add_programs_with_type_ok [OF a b assms(3) ok, of "[]"]
  obtain cs w' where r:
    "add_programs_with_type include_types d (map Ref ps) [] ?w2 = (Inr ([] @ cs), w')"
    "cs = [next_free ?w2 ..< next_free ?w2 + length (filter ?sel ps)]"
    "list_all2
       (\<lambda>c p. \<exists>n t. fmlookup (heap w p) ''type'' = Some n \<and> map_of d n = Some (Ref t) \<and>
                heap w' c = fmupd ''type'' (PDict (heap w t)) (heap w p))
       cs (filter ?sel ps)"
    "trace w' = trace ?w2"
    by blast
  have res: "get_programs_with_type env include_types w = (Inr cs, w')"
    using get_programs_with_type_unfold [OF assms(1) False assms(2) d(1), of include_types] r(1)
    by simp
  have cs: "cs = [next_free w ..< next_free w + length (filter ?sel ps)]"
    using r(2) by simp
  have conv: "map_of d n = Some (Ref t) \<Longrightarrow>
                type_named (heap w) ts n = Some t \<and> fmlookup (heap w t) ''name'' = Some n" for n t
    using d(2) type_named_Some_name [of "heap w" ts n]
    by (auto split: option.splits)
  have la: "list_all2
       (\<lambda>c p. \<exists>n t. fmlookup (heap w p) ''type'' = Some n \<and>
                type_named (heap w) ts n = Some t \<and>
                fmlookup (heap w t) ''name'' = Some n \<and>
                heap w' c = fmupd ''type'' (PDict (heap w t)) (heap w p))
       cs (filter ?sel ps)"
    using r(3) conv by (rule_tac list_all2_mono) blast+
  have en: "enabled env" "service_username env \<in> set (user_objects env)"
    using get_programs_nonempty [OF assms(1) False] by simp_all
  have "trace w' = trace w @ [UserLookup (service_username env),
                             ApiCall (programs_request env PNone None),
                             UserLookup (service_username env),
                             ApiCall (program_types_request env)]"
    using r(4) en by (simp add: get_programs_trace get_program_types_trace)
  from new_events_append [OF this]
  have "filter (\<lambda>req. resource req = ''program_types'') (api_calls (new_events w w')) =
          [program_types_request env]"
    by simp
  then show ?thesis using res cs la False by auto
qed

theorem get_programs_with_type_result_witness:
  "fst (get_programs example_env PNone None example_world) = RList [0, 1] \<and>
   fst (get_program_types example_env example_world) = RList [2, 3] \<and>
   filter (\<lambda>p. selected (Some [PStr ''XS'']) (heap example_world p)) [0, 1] = [1] \<and>
   fst (get_programs_with_type example_env (Some [PStr ''XS'']) example_world) = Inr [4] \<and>
   heap (snd (get_programs_with_type example_env (Some [PStr ''XS'']) example_world)) 4 =
     fmupd ''type'' (PDict (heap example_world 3)) (heap example_world 1)"
proof -
  let ?it = "Some [PStr ''XS'']"
  have 1: "fst (get_programs example_env PNone None example_world) = RList [0, 1]"
    by (simp add: model_defs)
  have 2: "fst (get_program_types example_env example_world) = RList [2, 3]"
    by (simp add: model_defs)
  have 3: "\<forall>p\<in>set [0, 1]. p < next_free example_world \<and>
             (\<exists>n. fmlookup (heap example_world p) ''type'' = Some n \<and> hashable n)"
    by (simp add: example_world_def example_heap_def hashable_def)
  have 4: "\<forall>t\<in>set [2, 3]. t < next_free example_world \<and>
             (\<exists>n. fmlookup (heap example_world t) ''name'' = Some n \<and> hashable n)"
    by (simp add: example_world_def example_heap_def hashable_def)
  have 5: "\<forall>p\<in>set [0, 1]. selected ?it (heap example_world p) \<longrightarrow>
           (\<exists>n t. fmlookup (heap example_world p) ''type'' = Some n \<and> t \<in> set [2, 3] \<and>
                  fmlookup (heap example_world t) ''name'' = Some n)"
  proof (intro ballI impI)
    fix p :: nat
    assume p: "p \<in> set [0, 1]" "selected ?it (heap example_world p)"
    have "\<not> selected ?it (heap example_world 0)"
      by (simp add: example_world_def example_heap_def selected_def)
    with p have "p = 1" by auto
    moreover have "fmlookup (heap example_world 1) ''type'' = Some (PStr ''XS'') \<and>
        (3::nat) \<in> set [2, 3] \<and> fmlookup (heap example_world 3) ''name'' = Some (PStr ''XS'')"
      by (simp add: example_world_def example_heap_def)
    ultimately show "\<exists>n t. fmlookup (heap example_world p) ''type'' = Some n \<and> t \<in> set [2, 3] \<and>
                  fmlookup (heap example_world t) ''name'' = Some n"
      by blast
  qed
  have sel: "filter (\<lambda>p. selected ?it (heap example_world p)) [0, 1] = [1]"
    by (simp add: example_world_def example_heap_def selected_def)
  have nf: "next_free example_world = 4" by (simp add: example_world_def)
  have ty: "fmlookup (heap example_world 1) ''type'' = Some (PStr ''XS'')"
    by (simp add: example_world_def example_heap_def)
  have tn: "type_named (heap example_world) [2, 3] (PStr ''XS'') = Some 3"
    by (simp add: type_named_def example_world_def example_heap_def)
  from get_programs_with_type_result [OF 1 2 3 4 5]
  obtain cs w' where r:
    "get_programs_with_type example_env ?it example_world = (Inr cs, w')"
    "cs = [next_free example_world ..<
            next_free example_world +
              length (filter (\<lambda>p. selected ?it (heap example_world p)) [0, 1])]"
    "list_all2
       (\<lambda>c p. \<exists>n t. fmlookup (heap example_world p) ''type'' = Some n \<and>
                type_named (heap example_world) [2, 3] n = Some t \<and>
                fmlookup (heap example_world t) ''name'' = Some n \<and>
                heap w' c = fmupd ''type'' (PDict (heap example_world t)) (heap example_world p))
       cs (filter (\<lambda>p. selected ?it (heap example_world p)) [0, 1])"
    by blast
  have cs: "cs = [4]" using r(2) unfolding sel nf by simp
  from r(3) have "heap w' 4 = fmupd ''type'' (PDict (heap example_world 3)) (heap example_world 1)"
    unfolding cs sel using ty tn by auto
  then show ?thesis using 1 2 sel r(1) cs by simp
qed

text \<open>
  As stated, C4 fails when a program that passes the filter has a type name that no
  fetched program type has: the call is a KeyError, with or without a filter.
\<close>

theorem missing_types_counterexample:
  "fst (get_programs no_types_env PNone None example_world) = RList [0, 1] \<and>
   fst (get_program_types no_types_env example_world) = RList [] \<and>
   fst (get_programs_with_type no_types_env None example_world) = Inl KeyError \<and>
   fst (get_programs_with_type no_types_env (Some [PStr ''MM'']) example_world) = Inl KeyError"
  by (simp add: model_defs)

text \<open>
  Claim C9. Let \<open>get_programs\<close> return a list of allocated programs with hashable type
  names and \<open>get_program_types\<close> a list of program types with hashable names. If one of
  the programs passes the filter and no program type has its type name, then
  \<open>get_programs_with_type\<close> fails with KeyError for the whole call: the program is
  neither skipped nor returned as it is.
\<close>

theorem missing_program_type_is_key_error:
  assumes "fst (get_programs env PNone None w) = RList ps"
    and "fst (get_program_types env w) = RList ts"
    and "\<forall>p\<in>set ps. p < next_free w \<and> (\<exists>n. fmlookup (heap w p) ''type'' = Some n \<and> hashable n)"
    and "\<forall>t\<in>set ts. \<exists>n. fmlookup (heap w t) ''name'' = Some n \<and> hashable n"
    and "p \<in> set ps" and "selected include_types (heap w p)"
    and "fmlookup (heap w p) ''type'' = Some n"
    and "\<forall>t\<in>set ts. fmlookup (heap w t) ''name'' \<noteq> Some n"
  shows "fst (get_programs_with_type env include_types w) = Inl KeyError"
proof -
  let ?w2 = "snd (get_program_types env (snd (get_programs env PNone None w)))"
  from program_types_by_name_map_of [OF assms(4), of "[]"]
  obtain d where d: "program_types_by_name (heap w) (map Ref ts) [] = Inr d"
    "\<forall>n. map_of d n =
       (case type_named (heap w) ts n of Some t \<Rightarrow> Some (Ref t) | None \<Rightarrow> map_of [] n)"
    by blast
  have ne: "ps \<noteq> []" using assms(5) by auto
  have "type_named (heap w) ts n = None"
    using assms(8) by (simp add: type_named_None_iff)
  then have "map_of d n = None" using d(2) by simp
  then have bad: "\<exists>p\<in>set ps. selected include_types (heap w p) \<and>
           (\<exists>n. fmlookup (heap w p) ''type'' = Some n \<and> map_of d n = None)"
    using assms(5,6,7) by blast
  have a: "\<forall>a<next_free w. heap ?w2 a = heap w a" by simp
  have b: "next_free w \<le> next_free ?w2" by simp
  show ?thesis
    using add_programs_with_type_key_error [OF a b assms(3) bad, of "[]"]
      get_programs_with_type_unfold [OF assms(1) ne assms(2) d(1), of include_types]
    by simp
qed


theorem missing_program_type_is_key_error_witness:
  "fst (get_programs one_type_env PNone None example_world) = RList [0, 1] \<and>
   fst (get_program_types one_type_env example_world) = RList [2] \<and>
   selected None (heap example_world 1) \<and>
   fmlookup (heap example_world 1) ''type'' = Some (PStr ''XS'') \<and>
   fmlookup (heap example_world 2) ''name'' \<noteq> Some (PStr ''XS'') \<and>
   fst (get_programs_with_type one_type_env None example_world) = Inl KeyError"
proof -
  have 1: "fst (get_programs one_type_env PNone None example_world) = RList [0, 1]"
    by (simp add: model_defs)
  have 2: "fst (get_program_types one_type_env example_world) = RList [2]"
    by (simp add: model_defs)
  have 3: "\<forall>p\<in>set [0, 1]. p < next_free example_world \<and>
             (\<exists>n. fmlookup (heap example_world p) ''type'' = Some n \<and> hashable n)"
    by (simp add: example_world_def example_heap_def hashable_def)
  have 4: "\<forall>t\<in>set [2]. \<exists>n. fmlookup (heap example_world t) ''name'' = Some n \<and> hashable n"
    by (simp add: example_world_def example_heap_def hashable_def)
  have 5: "(1::nat) \<in> set [0, 1]" by simp
  have 6: "selected None (heap example_world 1)" by (simp add: selected_def)
  have 7: "fmlookup (heap example_world 1) ''type'' = Some (PStr ''XS'')"
    by (simp add: example_world_def example_heap_def)
  have 8: "\<forall>t\<in>set [2]. fmlookup (heap example_world t) ''name'' \<noteq> Some (PStr ''XS'')"
    by (simp add: example_world_def example_heap_def)
  show ?thesis
    using 1 2 6 7 8 missing_program_type_is_key_error [OF 1 2 3 4 5 6 7 8]
    by simp
qed

subsection \<open>Instructors\<close>

lemma by_name_Nil [simp]: "by_name [] = Map.empty"
  by (simp add: by_name_def)

lemma by_name_append: "by_name (xs @ ys) = by_name xs ++ by_name ys"
  by (simp add: by_name_def)

lemma by_name_Cons: "by_name (i # is) = [instructor_name i \<mapsto> i] ++ by_name is"
  using by_name_append [of "[i]" "is"] by (simp add: by_name_def)

lemma by_name_eq:
  "by_name is n =
     (if n \<in> instructor_name ` set is
      then Some (last (filter (\<lambda>i. instructor_name i = n) is)) else None)"
proof (induction "is" rule: rev_induct)
  case Nil
  then show ?case by simp
next
  case (snoc i "is")
  show ?case
    using snoc by (auto simp: by_name_append by_name_def map_add_def)
qed

lemma named_Nil [simp]: "named []"
  by (simp add: named_def)

lemma set_update_subset: "set (AList.update k v d) \<subseteq> insert (k, v) (set d)"
  by (induction d) auto

lemma named_update:
  "named d \<Longrightarrow> instructor_name v = k \<Longrightarrow> named (AList.update k v d)"
proof -
  assume d: "named d" and k: "instructor_name v = k"
  have "set (AList.update k v d) \<subseteq> insert (k, v) (set d)"
    by (rule set_update_subset)
  then have "\<forall>(a, b)\<in>set (AList.update k v d). instructor_name b = a"
    using d k by (auto simp: named_def)
  then show ?thesis
    using d by (simp add: named_def distinct_update)
qed

lemma instructors_by_name_ok:
  assumes "instructors_by_name is d = Inr d'" and "named d"
  shows "named d' \<and> map_of d' = map_of d ++ by_name is"
  using assms
proof (induction "is" arbitrary: d)
  case Nil
  then show ?case by simp
next
  case (Cons i "is")
  from Cons.prems(1) obtain n where n: "py_get i ''name'' PNone = Inr n" "hashable n"
    "instructors_by_name is (AList.update n i d) = Inr d'"
    by (auto split: sum.splits if_splits)
  have nm: "instructor_name i = n" using n(1) by (simp add: instructor_name_def)
  have "named (AList.update n i d)" using Cons.prems(2) nm by (rule named_update)
  from Cons.IH [OF n(3) this] show ?case
    by (simp add: by_name_Cons nm update_conv' map_add_upd_left [symmetric] fun_eq_iff map_add_def
          split: option.splits)
qed


lemma foldl_update_ok:
  assumes "named d" and "\<forall>(k, v)\<in>set xs. instructor_name v = k"
  shows "named (foldl (\<lambda>acc (k, v). AList.update k v acc) d xs) \<and>
         map_of (foldl (\<lambda>acc (k, v). AList.update k v acc) d xs) = map_of d ++ map_of (rev xs)"
  using assms
proof (induction xs arbitrary: d)
  case Nil
  then show ?case by simp
next
  case (Cons x xs)
  obtain k v where x: "x = (k, v)" by (cases x)
  have nm: "instructor_name v = k" using Cons.prems(2) x by simp
  have "named (AList.update k v d)" using Cons.prems(1) nm by (rule named_update)
  from Cons.IH [OF this] Cons.prems(2)
  show ?case
    by (simp add: x update_conv' fun_eq_iff map_add_def split: option.splits)
qed

lemma dict_update_ok:
  assumes "hash_orders_ok env" and "named d" and "named other"
  shows "named (dict_update env d other) \<and>
         map_of (dict_update env d other) = map_of d ++ map_of other"
proof -
  let ?xs = "dict_iter env other"
  have m: "mset ?xs = mset other" using assms(1) by (simp add: hash_orders_ok_def)
  then have s: "set ?xs = set other" by (rule mset_eq_setD)
  have "mset (map fst ?xs) = mset (map fst other)"
    using m by (metis mset_map)
  then have dx: "distinct (map fst ?xs)"
    using assms(3) by (metis mset_eq_imp_distinct_iff named_def)
  have "map_of (rev ?xs) = map_of other"
    using dx assms(3) s by (subst map_of_inject_set) (auto simp: named_def rev_map [symmetric])
  moreover have "\<forall>(k, v)\<in>set ?xs. instructor_name v = k"
    using s assms(3) by (simp add: named_def)
  ultimately show ?thesis
    using foldl_update_ok [OF assms(2), of ?xs] by (simp add: dict_update_def)
qed

lemma instructors_by_name_dicts:
  "instructors_by_name is d = Inr d' \<Longrightarrow> \<forall>i\<in>set is. \<exists>m. i = PDict m"
  by (induction "is" arbitrary: d)
     (auto simp: py_get_def split: sum.splits if_splits pyval.splits)

lemma py_iter_list_items:
  assumes "py_iter v = Inr xs" and "\<forall>x\<in>set xs. \<exists>m. x = PDict m"
  shows "xs = list_items v"
proof (cases v)
  case (PStr s)
  with assms show ?thesis
    by (cases s) (auto simp: py_iter_def list_items_def)
next
  case (PDict m)
  with assms show ?thesis
    by (cases "sorted_list_of_fset (fmdom m)") (auto simp: py_iter_def list_items_def)
qed (use assms in \<open>auto simp: py_iter_def list_items_def\<close>)

lemma descriptor_instructors_listed:
  assumes "get_course env k = Some cd" and "descriptor_instructors cd = Inr is"
    and "\<forall>i\<in>set is. \<exists>m. i = PDict m"
  shows "is = course_instructors env k"
proof (cases "instructor_info cd")
  case None
  with assms(1,2) show ?thesis
    by (simp add: descriptor_instructors_def course_instructors_def py_get_def py_iter_def)
next
  case (Some info)
  from assms(2) Some obtain m where m: "info = PDict m"
    by (cases info) (auto simp: descriptor_instructors_def py_get_def)
  show ?thesis
  proof (cases "fmlookup m ''instructors''")
    case None
    with assms(1,2) Some m show ?thesis
      by (simp add: descriptor_instructors_def course_instructors_def py_get_def py_iter_def
            get_field_def list_items_def)
  next
    case (Some v)
    with assms(2) \<open>instructor_info cd = Some info\<close> m have "py_iter v = Inr is"
      by (simp add: descriptor_instructors_def py_get_def)
    from py_iter_list_items [OF this assms(3)]
    show ?thesis
      using assms(1) \<open>instructor_info cd = Some info\<close> m Some
      by (simp add: course_instructors_def get_field_def)
  qed
qed

lemma add_course_instructors_ok:
  assumes "hash_orders_ok env" and "add_course_instructors env k d = Inr d'" and "named d"
  shows "named d' \<and> map_of d' = map_of d ++ by_name (course_instructors env k)"
proof (cases "get_course env k")
  case None
  with assms show ?thesis
    by (simp add: add_course_instructors_def course_instructors_def)
next
  case (Some cd)
  with assms(2) obtain "is" bn where
    i: "descriptor_instructors cd = Inr is" "instructors_by_name is [] = Inr bn"
    "d' = dict_update env d bn"
    by (auto simp: add_course_instructors_def split: sum.splits)
  have "named bn \<and> map_of bn = map_of [] ++ by_name is"
    using i(2) by (rule instructors_by_name_ok) simp
  then have bn: "named bn" "map_of bn = by_name is" by simp_all
  have "is = course_instructors env k"
    using Some i(1) instructors_by_name_dicts [OF i(2)] by (rule descriptor_instructors_listed)
  then show ?thesis
    using dict_update_ok [OF assms(1) assms(3) bn(1)] i(3) bn(2)
    by simp
qed

lemma collect_instructors_world:
  "fst (collect_instructors env ks d w) = fst (collect_instructors env ks d w')"
  by (induction ks arbitrary: d w w') (auto simp: Let_def split: sum.splits)

lemma collect_instructors_fields [simp]:
  "cache (snd (collect_instructors env ks d w)) = cache w"
  "heap (snd (collect_instructors env ks d w)) = heap w"
  "next_free (snd (collect_instructors env ks d w)) = next_free w"
  by (induction ks arbitrary: d w) (auto simp: Let_def record_event_def split: sum.splits)

lemma collect_instructors_trace:
  "fst (collect_instructors env ks d w) = Inr d' \<Longrightarrow>
   trace (snd (collect_instructors env ks d w)) = trace w @ map CourseLookup ks"
  by (induction ks arbitrary: d w) (auto simp: Let_def record_event_def split: sum.splits)

lemma collect_instructors_ok:
  assumes "hash_orders_ok env" and "fst (collect_instructors env ks d w) = Inr d'" and "named d"
  shows "named d' \<and>
         map_of d' = map_of d ++ by_name (concat (map (course_instructors env) ks))"
  using assms(2,3)
proof (induction ks arbitrary: d w)
  case Nil
  then show ?case by simp
next
  case (Cons k ks)
  from Cons.prems(1) obtain d1 where
    d1: "add_course_instructors env k d = Inr d1"
    "fst (collect_instructors env ks d1 (record_event (CourseLookup k) w)) = Inr d'"
    by (auto simp: Let_def split: sum.splits)
  from add_course_instructors_ok [OF assms(1) d1(1) Cons.prems(2)]
  have n1: "named d1" "map_of d1 = map_of d ++ by_name (course_instructors env k)"
    by simp_all
  from Cons.IH [OF d1(2) n1(1)] n1(2)
  show ?case by (simp add: by_name_append)
qed






lemma get_program_instructors_hit:
  assumes "truthy (cache_get w (instructors_cache_key env program))"
  shows "get_program_instructors env program w =
           (Inr (cache_get w (instructors_cache_key env program)),
            w\<lparr>trace := trace w @ [CacheGet (instructors_cache_key env program)]\<rparr>)"
  using assms by (simp add: get_program_instructors_def Let_def record_event_def)

lemma get_program_instructors_miss:
  assumes "\<not> truthy (cache_get w (instructors_cache_key env program))"
    and "get_program_course_run_keys env program = Inr ks"
  shows "fst (get_program_instructors env program w) =
           (case fst (collect_instructors env (set_iter env ks) [] w) of
              Inl e \<Rightarrow> Inl e
            | Inr d \<Rightarrow> Inr (PList (map snd (dict_iter env d))))"
proof -
  let ?w1 = "record_event (CacheGet (instructors_cache_key env program)) w"
  have "fst (collect_instructors env (set_iter env ks) [] ?w1) =
          fst (collect_instructors env (set_iter env ks) [] w)"
    by (rule collect_instructors_world)
  then show ?thesis
    using assms
    by (simp add: get_program_instructors_def Let_def split_def split: sum.splits)
qed

lemma get_program_instructors_miss_world:
  assumes "\<not> truthy (cache_get w (instructors_cache_key env program))"
    and "get_program_course_run_keys env program = Inr ks"
    and "fst (get_program_instructors env program w) = Inr v"
  shows "cache (snd (get_program_instructors env program w)) =
           (cache w)(instructors_cache_key env program \<mapsto> v) \<and>
         trace (snd (get_program_instructors env program w)) =
           trace w @ CacheGet (instructors_cache_key env program) #
             map CourseLookup (set_iter env ks) @ [CacheSet (instructors_cache_key env program) v]"
proof -
  let ?key = "instructors_cache_key env program"
  let ?w1 = "record_event (CacheGet ?key) w"
  let ?c = "collect_instructors env (set_iter env ks) [] ?w1"
  from assms obtain d where d: "fst ?c = Inr d" "v = PList (map snd (dict_iter env d))"
    by (auto simp: get_program_instructors_def Let_def split_def split: sum.splits)
  have t: "trace (snd ?c) = trace ?w1 @ map CourseLookup (set_iter env ks)"
    using d(1) by (rule collect_instructors_trace)
  show ?thesis
    using assms(1,2) d t
    by (simp add: get_program_instructors_def Let_def split_def record_event_def)
qed

lemma length_filter_mset_eq:
  "mset xs = mset ys \<Longrightarrow> length (filter Q xs) = length (filter Q ys)"
  by (metis mset_filter size_mset)

lemma length_filter_key:
  "distinct (map fst d) \<Longrightarrow>
   length (filter (\<lambda>kv. fst kv = n) d) = (if n \<in> fst ` set d then 1 else 0)"
  by (induction d) (auto simp: image_iff)

lemma named_values:
  assumes "named d" and "mset xs = mset d"
  shows "length (filter (\<lambda>i. instructor_name i = n) (map snd xs)) =
           (if n \<in> dom (map_of d) then 1 else 0)"
proof -
  have "length (filter (\<lambda>i. instructor_name i = n) (map snd xs)) =
          length (filter (\<lambda>kv. instructor_name (snd kv) = n) xs)"
    by (simp add: filter_map comp_def)
  also have "\<dots> = length (filter (\<lambda>kv. instructor_name (snd kv) = n) d)"
    using assms(2) by (rule length_filter_mset_eq)
  also have "filter (\<lambda>kv. instructor_name (snd kv) = n) d = filter (\<lambda>kv. fst kv = n) d"
    using assms(1) by (intro filter_cong) (auto simp: named_def)
  also have "length (filter (\<lambda>kv. fst kv = n) d) = (if n \<in> fst ` set d then 1 else 0)"
    using assms(1) by (intro length_filter_key) (simp add: named_def)
  finally show ?thesis by (simp add: dom_map_of_conv_image_fst)
qed

lemma dom_by_name: "dom (by_name is) = instructor_name ` set is"
  by (auto simp: by_name_eq dom_def)


lemma add_course_instructors_no_info:
  assumes "hash_orders_ok env" and "\<not> has_instructor_info env k"
  shows "add_course_instructors env k d = Inr d"
proof -
  have "mset (dict_iter env []) = mset []"
    using assms(1) unfolding hash_orders_ok_def by blast
  then have e: "dict_iter env [] = []" by simp
  show ?thesis
    using assms(2) e
    by (auto simp: add_course_instructors_def has_instructor_info_def descriptor_instructors_def
          py_get_def py_iter_def dict_update_def split: option.splits)
qed

lemma collect_instructors_filter:
  assumes "hash_orders_ok env"
  shows "fst (collect_instructors env ks d w) =
           fst (collect_instructors env (filter (has_instructor_info env) ks) d w')"
proof (induction ks arbitrary: d w w')
  case Nil
  then show ?case by simp
next
  case (Cons k ks)
  show ?case
  proof (cases "has_instructor_info env k")
    case True
    then show ?thesis
      using Cons.IH by (auto simp: Let_def split: sum.splits)
  next
    case False
    then show ?thesis
      using Cons.IH add_course_instructors_no_info [OF assms False] by (simp add: Let_def)
  qed
qed

lemma hash_orders_ok_example [simp]:
  "hash_orders_ok example_env" "hash_orders_ok missing_course_env" "hash_orders_ok no_info_env"
  by (simp_all add: hash_orders_ok_def example_env_def missing_course_env_def no_info_env_def)

lemma instructors_by_name_total:
  "list_all instructor_wellformed is \<Longrightarrow> \<exists>d'. instructors_by_name is d = Inr d'"
proof (induction "is" arbitrary: d)
  case Nil
  then show ?case by simp
next
  case (Cons i "is")
  from Cons.prems obtain m where m: "i = PDict m" "hashable (instructor_name i)"
    by (cases i) (auto simp: instructor_wellformed_def)
  then have "py_get i ''name'' PNone = Inr (instructor_name i)"
    by (simp add: instructor_name_def py_get_def)
  then show ?case
    using m(2) Cons.IH [of "AList.update (instructor_name i) i d"] Cons.prems by simp
qed

lemma add_course_instructors_total:
  assumes "instructors_wellformed env k"
  shows "\<exists>d'. add_course_instructors env k d = Inr d'"
proof (cases "get_course env k")
  case None
  then show ?thesis by (simp add: add_course_instructors_def)
next
  case (Some cd)
  have "\<exists>is. descriptor_instructors cd = Inr is \<and> list_all instructor_wellformed is"
  proof (cases "instructor_info cd")
    case None
    then show ?thesis
      by (simp add: descriptor_instructors_def py_get_def py_iter_def)
  next
    case (Some info)
    with assms \<open>get_course env k = Some cd\<close> show ?thesis
      by (auto simp: instructors_wellformed_def descriptor_instructors_def py_get_def py_iter_def
            split: pyval.splits option.splits)
  qed
  then obtain "is" where i: "descriptor_instructors cd = Inr is" "list_all instructor_wellformed is"
    by blast
  from instructors_by_name_total [OF i(2), of "[]"] obtain bn where
    "instructors_by_name is [] = Inr bn" by blast
  then show ?thesis using Some i(1) by (simp add: add_course_instructors_def)
qed

lemma collect_instructors_total:
  "\<forall>k\<in>set ks. instructors_wellformed env k \<Longrightarrow>
   \<exists>d'. fst (collect_instructors env ks d w) = Inr d'"
proof (induction ks arbitrary: d w)
  case Nil
  then show ?case by simp
next
  case (Cons k ks)
  from Cons.prems have "instructors_wellformed env k" by simp
  from add_course_instructors_total [OF this, of d] obtain d1 where
    "add_course_instructors env k d = Inr d1" by blast
  then show ?case using Cons.IH Cons.prems by (simp add: Let_def)
qed

lemma run_key_PDict: "run_key env cr = Inr ck \<Longrightarrow> \<exists>m. cr = PDict m"
  by (cases cr) (auto simp: run_key_def py_getitem_def)

lemma add_course_runs_keys:
  "add_course_runs env runs ks = Inr ks' \<Longrightarrow>
   (\<forall>cr\<in>set runs. \<exists>m. cr = PDict m) \<and> Inr ` set ks' = Inr ` set ks \<union> run_key env ` set runs"
proof (induction runs arbitrary: ks)
  case Nil
  then show ?case by simp
next
  case (Cons cr runs)
  from Cons.prems obtain ck where
    ck: "run_key env cr = Inr ck" "add_course_runs env runs (set_add ck ks) = Inr ks'"
    by (auto simp: run_key_def split: sum.splits)
  from Cons.IH [OF ck(2)] run_key_PDict [OF ck(1)] ck(1)
  show ?case by (auto simp: set_add_def)
qed

lemma add_courses_keys:
  "add_courses env courses ks = Inr ks' \<Longrightarrow>
   (\<forall>c\<in>set courses. \<exists>m. c = PDict m) \<and>
   Inr ` set ks' = Inr ` set ks \<union>
     run_key env ` set (concat (map (\<lambda>c. list_items (get_field c ''course_runs'')) courses))"
proof (induction courses arbitrary: ks)
  case Nil
  then show ?case by simp
next
  case (Cons c courses)
  from Cons.prems obtain rs runs ks1 where
    r: "py_getitem c ''course_runs'' = Inr rs" "py_iter rs = Inr runs"
    "add_course_runs env runs ks = Inr ks1" "add_courses env courses ks1 = Inr ks'"
    by (auto split: sum.splits)
  from r(1) obtain m where m: "c = PDict m" "get_field c ''course_runs'' = rs"
    by (cases c) (auto simp: py_getitem_def dict_getitem_def get_field_def split: option.splits)
  from add_course_runs_keys [OF r(3)]
  have k1: "\<forall>cr\<in>set runs. \<exists>m. cr = PDict m"
    "Inr ` set ks1 = Inr ` set ks \<union> run_key env ` set runs"
    by simp_all
  have "runs = list_items rs" using r(2) k1(1) by (rule py_iter_list_items)
  with Cons.IH [OF r(4)] k1(2) m show ?case by auto
qed

lemma get_program_course_run_keys_keys:
  assumes "get_program_course_run_keys env program = Inr ks"
  shows "Inr ` set ks = run_key env ` set (program_course_runs program)"
proof -
  from assms obtain cs courses where
    c: "dict_getitem program ''courses'' = Inr cs" "py_iter cs = Inr courses"
    "add_courses env courses [] = Inr ks"
    by (auto simp: get_program_course_run_keys_def split: sum.splits)
  from c(1) have f: "get_field (PDict program) ''courses'' = cs"
    by (auto simp: dict_getitem_def get_field_def split: option.splits)
  from add_courses_keys [OF c(3)]
  have k: "\<forall>c\<in>set courses. \<exists>m. c = PDict m"
    "Inr ` set ks =
       run_key env ` set (concat (map (\<lambda>c. list_items (get_field c ''course_runs'')) courses))"
    by simp_all
  have "courses = list_items cs" using c(2) k(1) by (rule py_iter_list_items)
  then show ?thesis using k(2) f by (simp add: program_course_runs_def)
qed

lemma length_filter_one: "length (filter P xs) = 1 \<Longrightarrow> \<exists>x\<in>set xs. P x"
  by (induction xs) (auto split: if_splits)

lemma collected_values:
  assumes "hash_orders_ok env" and "fst (collect_instructors env ks [] w) = Inr d"
  shows "(\<forall>n. length (filter (\<lambda>i. instructor_name i = n) (map snd (dict_iter env d))) =
               (if n \<in> instructor_name ` set (concat (map (course_instructors env) ks))
                then 1 else 0)) \<and>
         (\<forall>n\<in>instructor_name ` set (concat (map (course_instructors env) ks)).
            last (filter (\<lambda>i. instructor_name i = n) (concat (map (course_instructors env) ks)))
              \<in> set (map snd (dict_iter env d))) \<and>
         set (map snd (dict_iter env d)) \<subseteq> set (concat (map (course_instructors env) ks))"
proof -
  let ?all = "concat (map (course_instructors env) ks)"
  from collect_instructors_ok [OF assms(1,2)]
  have n: "named d" "map_of d = by_name ?all" by simp_all
  have p: "mset (dict_iter env d) = mset d"
    using assms(1) by (simp add: hash_orders_ok_def)
  have s: "set (dict_iter env d) = set d" using p by (rule mset_eq_setD)
  have a: "length (filter (\<lambda>i. instructor_name i = n) (map snd (dict_iter env d))) =
             (if n \<in> instructor_name ` set ?all then 1 else 0)" for n
    using named_values [OF n(1) p, of n] by (simp add: n(2) dom_by_name)
  have b: "last (filter (\<lambda>i. instructor_name i = n) ?all) \<in> set (map snd (dict_iter env d))"
    if "n \<in> instructor_name ` set ?all" for n
  proof -
    have "map_of d n = Some (last (filter (\<lambda>i. instructor_name i = n) ?all))"
      using that by (simp add: n(2) by_name_eq)
    then have "(n, last (filter (\<lambda>i. instructor_name i = n) ?all)) \<in> set d"
      by (rule map_of_SomeD)
    then show ?thesis using s by force
  qed
  have c: "v \<in> set ?all" if "v \<in> set (map snd (dict_iter env d))" for v
  proof -
    from that s obtain k where "(k, v) \<in> set d" by auto
    then have "map_of d k = Some v"
      using n(1) by (simp add: named_def)
    then have e: "by_name ?all k = Some v" by (simp add: n(2))
    then have k: "k \<in> instructor_name ` set ?all"
      by (simp add: by_name_eq split: if_splits)
    then have ne: "filter (\<lambda>i. instructor_name i = k) ?all \<noteq> []"
      by (auto simp: filter_empty_conv)
    have "v = last (filter (\<lambda>i. instructor_name i = k) ?all)"
      using e k by (simp add: by_name_eq)
    then have "v \<in> set (filter (\<lambda>i. instructor_name i = k) ?all)"
      using ne last_in_set by blast
    then show ?thesis by simp
  qed
  show ?thesis using a b c by blast
qed

lemma course_instructors_no_info:
  "\<not> has_instructor_info env k \<Longrightarrow> course_instructors env k = []"
  by (auto simp: has_instructor_info_def course_instructors_def split: option.splits)





text \<open>
  Claim C8. When nothing true is cached and the course run keys of the program can be
  collected (they are then exactly the keys of the course runs of its courses), the
  result of \<open>get_program_instructors\<close> is the result of the aggregation over those keys
  only whose course is found and has instructor information: a key whose lookup returns
  nothing, or whose descriptor has no \<^verbatim>\<open>instructor_info\<close>, contributes nothing and raises
  nothing; when no key has instructor information the call returns the empty list. When
  the instructors of the courses that are found are well formed, the call returns a
  list, every instructor of every course run has an entry of its name in the list, and
  every entry of the list is an instructor of a course run whose course was found.
\<close>

theorem missing_descriptors_are_skipped:
  assumes "hash_orders_ok env"
    and "\<not> truthy (cache_get w (instructors_cache_key env program))"
    and "get_program_course_run_keys env program = Inr ks"
  shows "fst (get_program_instructors env program w) =
           (case fst (collect_instructors env
                        (filter (has_instructor_info env) (set_iter env ks)) [] w) of
              Inl e \<Rightarrow> Inl e
            | Inr d \<Rightarrow> Inr (PList (map snd (dict_iter env d)))) \<and>
         ((\<forall>k\<in>set ks. \<not> has_instructor_info env k) \<longrightarrow>
            fst (get_program_instructors env program w) = Inr (PList [])) \<and>
         Inr ` set ks = run_key env ` set (program_course_runs program) \<and>
         ((\<forall>k\<in>set ks. instructors_wellformed env k) \<longrightarrow>
            (\<exists>vs. fst (get_program_instructors env program w) = Inr (PList vs) \<and>
               (\<forall>k\<in>set ks. \<forall>i\<in>set (course_instructors env k).
                  \<exists>v\<in>set vs. instructor_name v = instructor_name i) \<and>
               (\<forall>v\<in>set vs. \<exists>k\<in>set ks.
                  has_instructor_info env k \<and> v \<in> set (course_instructors env k)))) \<and>
         (\<forall>k. \<not> has_instructor_info env k \<longrightarrow> course_instructors env k = [])"
proof -
  have m: "mset (set_iter env ks) = mset ks" and e: "mset (dict_iter env []) = mset []"
    using assms(1) unfolding hash_orders_ok_def by blast+
  have s: "set (set_iter env ks) = set ks" using m by (rule mset_eq_setD)
  have 1: "fst (get_program_instructors env program w) =
           (case fst (collect_instructors env
                        (filter (has_instructor_info env) (set_iter env ks)) [] w) of
              Inl e \<Rightarrow> Inl e
            | Inr d \<Rightarrow> Inr (PList (map snd (dict_iter env d))))"
    using get_program_instructors_miss [OF assms(2,3)]
      collect_instructors_filter [OF assms(1), of "set_iter env ks" "[]" w w]
    by simp
  have "filter (has_instructor_info env) (set_iter env ks) = []"
    if "\<forall>k\<in>set ks. \<not> has_instructor_info env k"
    using that s by (simp add: filter_empty_conv)
  then have 2: "(\<forall>k\<in>set ks. \<not> has_instructor_info env k) \<longrightarrow>
            fst (get_program_instructors env program w) = Inr (PList [])"
    using 1 e by simp
  have 3: "Inr ` set ks = run_key env ` set (program_course_runs program)"
    using assms(3) by (rule get_program_course_run_keys_keys)
  have "\<exists>vs. fst (get_program_instructors env program w) = Inr (PList vs) \<and>
               (\<forall>k\<in>set ks. \<forall>i\<in>set (course_instructors env k).
                  \<exists>v\<in>set vs. instructor_name v = instructor_name i) \<and>
               (\<forall>v\<in>set vs. \<exists>k\<in>set ks.
                  has_instructor_info env k \<and> v \<in> set (course_instructors env k))"
    if wf: "\<forall>k\<in>set ks. instructors_wellformed env k"
  proof -
    let ?all = "concat (map (course_instructors env) (set_iter env ks))"
    have "\<forall>k\<in>set (set_iter env ks). instructors_wellformed env k" using wf s by simp
    from collect_instructors_total [OF this, of "[]" w]
    obtain d where d: "fst (collect_instructors env (set_iter env ks) [] w) = Inr d" by blast
    let ?vs = "map snd (dict_iter env d)"
    have r: "fst (get_program_instructors env program w) = Inr (PList ?vs)"
      using get_program_instructors_miss [OF assms(2,3)] d by simp
    from collected_values [OF assms(1) d]
    have a: "\<forall>n. length (filter (\<lambda>i. instructor_name i = n) ?vs) =
               (if n \<in> instructor_name ` set ?all then 1 else 0)"
      and c: "set ?vs \<subseteq> set ?all"
      by blast+
    have p: "\<exists>v\<in>set ?vs. instructor_name v = instructor_name i"
      if "k \<in> set ks" "i \<in> set (course_instructors env k)" for k i
    proof -
      have "instructor_name i \<in> instructor_name ` set ?all" using that s by auto
      then have "length (filter (\<lambda>j. instructor_name j = instructor_name i) ?vs) = 1"
        using a by simp
      then show ?thesis by (rule length_filter_one)
    qed
    have q: "\<exists>k\<in>set ks. has_instructor_info env k \<and> v \<in> set (course_instructors env k)"
      if "v \<in> set ?vs" for v
    proof -
      from that c have "v \<in> set ?all" by blast
      then obtain k where k: "k \<in> set ks" "v \<in> set (course_instructors env k)"
        using s by auto
      have "has_instructor_info env k"
      proof (rule ccontr)
        assume "\<not> has_instructor_info env k"
        then have "course_instructors env k = []" by (rule course_instructors_no_info)
        with k(2) show False by simp
      qed
      then show ?thesis using k by blast
    qed
    show ?thesis
    proof (intro exI [of _ ?vs] conjI ballI)
      show "fst (get_program_instructors env program w) = Inr (PList ?vs)" by (rule r)
    next
      fix k i assume "k \<in> set ks" "i \<in> set (course_instructors env k)"
      then show "\<exists>v\<in>set ?vs. instructor_name v = instructor_name i" by (rule p)
    next
      fix v assume "v \<in> set ?vs"
      then show "\<exists>k\<in>set ks. has_instructor_info env k \<and> v \<in> set (course_instructors env k)"
        by (rule q)
    qed
  qed
  then have 4: "(\<forall>k\<in>set ks. instructors_wellformed env k) \<longrightarrow>
            (\<exists>vs. fst (get_program_instructors env program w) = Inr (PList vs) \<and>
               (\<forall>k\<in>set ks. \<forall>i\<in>set (course_instructors env k).
                  \<exists>v\<in>set vs. instructor_name v = instructor_name i) \<and>
               (\<forall>v\<in>set vs. \<exists>k\<in>set ks.
                  has_instructor_info env k \<and> v \<in> set (course_instructors env k)))"
    by (rule impI)
  have 5: "\<forall>k. \<not> has_instructor_info env k \<longrightarrow> course_instructors env k = []"
    using course_instructors_no_info by blast
  show ?thesis
    by (intro conjI) (rule 1, rule 2, rule 3, rule 4, rule 5)
qed

theorem missing_descriptors_are_skipped_witness:
  "hash_orders_ok missing_course_env \<and>
   \<not> truthy (cache_get example_world (instructors_cache_key missing_course_env (heap example_world 0))) \<and>
   get_program_course_run_keys missing_course_env (heap example_world 0) = Inr [''c1'', ''c2''] \<and>
   map (run_key missing_course_env) (program_course_runs (heap example_world 0)) =
     [Inr ''c1'', Inr ''c2''] \<and>
   get_course missing_course_env ''c1'' = None \<and>
   instructors_wellformed missing_course_env ''c1'' \<and>
   instructors_wellformed missing_course_env ''c2'' \<and>
   course_instructors missing_course_env ''c1'' = [] \<and>
   course_instructors missing_course_env ''c2'' =
     [PDict (fmap_of_list [(''name'', PStr ''Ann''), (''organization'', PStr ''Y'')])] \<and>
   filter (has_instructor_info missing_course_env) (set_iter missing_course_env [''c1'', ''c2''])
     = [''c2''] \<and>
   fst (get_program_instructors missing_course_env (heap example_world 0) example_world) =
     Inr (PList [PDict (fmap_of_list [(''name'', PStr ''Ann''), (''organization'', PStr ''Y'')])]) \<and>
   get_course no_info_env ''c1'' = Some (CourseDescriptor None) \<and>
   get_course no_info_env ''c2'' = None \<and>
   fst (get_program_instructors no_info_env (heap example_world 0) example_world) = Inr (PList [])"
proof -
  have 1: "hash_orders_ok missing_course_env" and n1: "hash_orders_ok no_info_env" by simp_all
  have 2: "\<not> truthy (cache_get example_world
              (instructors_cache_key missing_course_env (heap example_world 0)))"
    and n2: "\<not> truthy (cache_get example_world
              (instructors_cache_key no_info_env (heap example_world 0)))"
    by (simp_all add: model_defs)
  have 3: "get_program_course_run_keys missing_course_env (heap example_world 0) = Inr [''c1'', ''c2'']"
    and n3: "get_program_course_run_keys no_info_env (heap example_world 0) = Inr [''c1'', ''c2'']"
    by (simp_all add: model_defs)
  have 4: "get_course missing_course_env ''c1'' = None"
    "get_course no_info_env ''c1'' = Some (CourseDescriptor None)"
    "get_course no_info_env ''c2'' = None"
    by (simp_all add: model_defs)
  have 5: "filter (has_instructor_info missing_course_env) (set_iter missing_course_env [''c1'', ''c2''])
     = [''c2'']"
    by (simp add: model_defs)
  have 6: "fst (collect_instructors missing_course_env [''c2''] [] example_world) =
             Inr [(PStr ''Ann'', PDict (fmap_of_list [(''name'', PStr ''Ann''), (''organization'', PStr ''Y'')]))]"
    by (simp add: model_defs)
  have 7: "dict_iter missing_course_env = rev"
    by (simp add: model_defs)
  have 8: "\<forall>k\<in>set [''c1'', ''c2'']. \<not> has_instructor_info no_info_env k"
    by (simp add: model_defs)
  have a: "fst (get_program_instructors missing_course_env (heap example_world 0) example_world) =
     Inr (PList [PDict (fmap_of_list [(''name'', PStr ''Ann''), (''organization'', PStr ''Y'')])])"
    using missing_descriptors_are_skipped [OF 1 2 3, THEN conjunct1] unfolding 5 6 7 by simp
  have b: "fst (get_program_instructors no_info_env (heap example_world 0) example_world) = Inr (PList [])"
    using missing_descriptors_are_skipped [OF n1 n2 n3, THEN conjunct2, THEN conjunct1] 8
    by blast
  have 9: "map (run_key missing_course_env) (program_course_runs (heap example_world 0)) =
             [Inr ''c1'', Inr ''c2'']"
    "instructors_wellformed missing_course_env ''c1''"
    "instructors_wellformed missing_course_env ''c2''"
    "course_instructors missing_course_env ''c1'' = []"
    "course_instructors missing_course_env ''c2'' =
       [PDict (fmap_of_list [(''name'', PStr ''Ann''), (''organization'', PStr ''Y'')])]"
    by (simp_all add: model_defs)
  show ?thesis
    using 1 2 3 4 5 9 a b by simp
qed

text \<open>
  Claim C10. A cached value that is true is returned as it is: the cache is read and
  nothing else happens. A cached value that is false (absent, or an empty list) is a
  miss: the result is the one computed with an empty cache; when it is a list, every
  course run key was looked up in the module store, and the cache entry of the program
  is overwritten with the list.
\<close>

theorem falsy_cached_value_is_recomputed:
  "(truthy (cache_get w (instructors_cache_key env program)) \<longrightarrow>
      get_program_instructors env program w =
        (Inr (cache_get w (instructors_cache_key env program)),
         w\<lparr>trace := trace w @ [CacheGet (instructors_cache_key env program)]\<rparr>)) \<and>
   (\<not> truthy (cache_get w (instructors_cache_key env program)) \<longrightarrow>
      fst (get_program_instructors env program w) =
        fst (get_program_instructors env program (w\<lparr>cache := (\<lambda>k. None)\<rparr>)) \<and>
      (\<forall>ks v. get_program_course_run_keys env program = Inr ks \<longrightarrow>
         fst (get_program_instructors env program w) = Inr v \<longrightarrow>
           cache (snd (get_program_instructors env program w)) =
             (cache w)(instructors_cache_key env program \<mapsto> v) \<and>
           new_events w (snd (get_program_instructors env program w)) =
             CacheGet (instructors_cache_key env program) #
               map CourseLookup (set_iter env ks) @
               [CacheSet (instructors_cache_key env program) v]))"
proof (intro conjI impI allI)
  assume "truthy (cache_get w (instructors_cache_key env program))"
  then show "get_program_instructors env program w =
        (Inr (cache_get w (instructors_cache_key env program)),
         w\<lparr>trace := trace w @ [CacheGet (instructors_cache_key env program)]\<rparr>)"
    by (rule get_program_instructors_hit)
next
  assume miss: "\<not> truthy (cache_get w (instructors_cache_key env program))"
  let ?w0 = "w\<lparr>cache := (\<lambda>k. None)\<rparr>"
  have miss0: "\<not> truthy (cache_get ?w0 (instructors_cache_key env program))"
    by (simp add: cache_get_def truthy_def)
  show "fst (get_program_instructors env program w) =
        fst (get_program_instructors env program ?w0)"
  proof (cases "get_program_course_run_keys env program")
    case (Inl e)
    then show ?thesis using miss miss0
      by (simp add: get_program_instructors_def Let_def)
  next
    case (Inr ks)
    show ?thesis
      using get_program_instructors_miss [OF miss Inr] get_program_instructors_miss [OF miss0 Inr]
        collect_instructors_world [of env "set_iter env ks" "[]" w ?w0]
      by simp
  qed
next
  fix ks v
  assume miss: "\<not> truthy (cache_get w (instructors_cache_key env program))"
    and ks: "get_program_course_run_keys env program = Inr ks"
    and v: "fst (get_program_instructors env program w) = Inr v"
  from get_program_instructors_miss_world [OF miss ks v]
  show "cache (snd (get_program_instructors env program w)) =
             (cache w)(instructors_cache_key env program \<mapsto> v)"
    and "new_events w (snd (get_program_instructors env program w)) =
             CacheGet (instructors_cache_key env program) #
               map CourseLookup (set_iter env ks) @
               [CacheSet (instructors_cache_key env program) v]"
    by (simp_all add: new_events_def)
qed

theorem falsy_cached_value_is_recomputed_witness:
  "cache emptied_world (instructors_cache_key example_env (heap example_world 0)) = Some (PList []) \<and>
   \<not> truthy (cache_get emptied_world (instructors_cache_key example_env (heap example_world 0))) \<and>
   fst (get_program_instructors example_env (heap example_world 0) emptied_world) =
     Inr (PList [PDict (fmap_of_list [(''name'', PStr ''Bob''), (''organization'', PStr ''X'')]),
                 PDict (fmap_of_list [(''name'', PStr ''Ann''), (''organization'', PStr ''X'')])]) \<and>
   cache (snd (get_program_instructors example_env (heap example_world 0) emptied_world))
       ''program.instructors.u1'' =
     Some (PList [PDict (fmap_of_list [(''name'', PStr ''Bob''), (''organization'', PStr ''X'')]),
                  PDict (fmap_of_list [(''name'', PStr ''Ann''), (''organization'', PStr ''X'')])]) \<and>
   new_events emptied_world
       (snd (get_program_instructors example_env (heap example_world 0) emptied_world)) =
     [CacheGet ''program.instructors.u1'', CourseLookup ''c2'', CourseLookup ''c1'',
      CacheSet ''program.instructors.u1''
        (PList [PDict (fmap_of_list [(''name'', PStr ''Bob''), (''organization'', PStr ''X'')]),
                PDict (fmap_of_list [(''name'', PStr ''Ann''), (''organization'', PStr ''X'')])])] \<and>
   truthy (cache_get stale_world (instructors_cache_key example_env (heap example_world 0))) \<and>
   get_program_instructors example_env (heap example_world 0) stale_world =
     (Inr (PList [PDict (fmap_of_list [(''name'', PStr ''Old'')])]),
      stale_world\<lparr>trace := [CacheGet ''program.instructors.u1'']\<rparr>)"
proof -
  let ?v = "PList [PDict (fmap_of_list [(''name'', PStr ''Bob''), (''organization'', PStr ''X'')]),
                 PDict (fmap_of_list [(''name'', PStr ''Ann''), (''organization'', PStr ''X'')])]"
  have k: "instructors_cache_key example_env (heap example_world 0) = ''program.instructors.u1''"
    by (simp add: model_defs)
  have 0: "cache emptied_world ''program.instructors.u1'' = Some (PList [])"
    by (simp add: emptied_world_def)
  have 1: "\<not> truthy (cache_get emptied_world ''program.instructors.u1'')"
    by (simp add: model_defs)
  have 2: "get_program_course_run_keys example_env (heap example_world 0) = Inr [''c1'', ''c2'']"
    by (simp add: model_defs)
  have 3: "fst (get_program_instructors example_env (heap example_world 0) emptied_world) = Inr ?v"
    by (simp add: model_defs)
  have 4: "truthy (cache_get stale_world ''program.instructors.u1'')"
    by (simp add: model_defs)
  have 5: "cache_get stale_world ''program.instructors.u1'' =
             PList [PDict (fmap_of_list [(''name'', PStr ''Old'')])]"
    "trace stale_world = []"
    by (simp_all add: model_defs)
  have 6: "set_iter example_env [''c1'', ''c2''] = [''c2'', ''c1'']"
    by (simp add: example_env_def)
  note t = falsy_cached_value_is_recomputed [of emptied_world example_env "heap example_world 0",
      unfolded k]
  note h = falsy_cached_value_is_recomputed [of stale_world example_env "heap example_world 0",
      unfolded k]
  have a: "cache (snd (get_program_instructors example_env (heap example_world 0) emptied_world)) =
             (cache emptied_world)(''program.instructors.u1'' \<mapsto> ?v)"
    and b: "new_events emptied_world
       (snd (get_program_instructors example_env (heap example_world 0) emptied_world)) =
     CacheGet ''program.instructors.u1'' # map CourseLookup (set_iter example_env [''c1'', ''c2'']) @
       [CacheSet ''program.instructors.u1'' ?v]"
    using t 1 2 3 by blast+
  have c: "get_program_instructors example_env (heap example_world 0) stale_world =
     (Inr (cache_get stale_world ''program.instructors.u1''),
      stale_world\<lparr>trace := trace stale_world @ [CacheGet ''program.instructors.u1'']\<rparr>)"
    using h 4 by blast
  show ?thesis
    unfolding k using 0 1 3 4 a b c by (simp add: 5 6)
qed

subsection \<open>One program with its type and instructors\<close>

lemma fst_get_programs_world: "fst (get_programs env uuid type w) = fst (get_programs env uuid type w')"
  by (simp add: get_programs_def Let_def)

lemma next_program_type_agree:
  assumes "\<forall>a\<in>set as. h a = h' a"
  shows "next_program_type h n (map Ref as) = next_program_type h' n (map Ref as)"
  using assms by (induction as) (auto simp: item_getitem_def split: sum.splits)

lemma next_program_type_fetched_agree:
  assumes "allocated w0 r" and "\<forall>a<next_free w0. h a = heap w0 a"
  shows "next_program_type h n (iter_fetched h r) =
         next_program_type (heap w0) n (iter_fetched (heap w0) r)"
proof (cases r)
  case (RList as)
  then have "\<forall>a\<in>set as. h a = heap w0 a"
    using assms by (auto simp: allocated_def list_all_iff)
  then show ?thesis using RList by (simp add: iter_fetched_def next_program_type_agree)
next
  case (RObj a)
  then have "h a = heap w0 a" using assms by (simp add: allocated_def)
  then show ?thesis using RObj
    by (cases "sorted_list_of_fset (fmdom (heap w0 a))") (simp_all add: iter_fetched_def item_getitem_def)
qed

lemma get_program_type_agree:
  assumes "fetched_allocated env w0" and "\<forall>a<next_free w0. heap w a = heap w0 a"
  shows "fst (get_program_type env n w) = fst (get_program_type env n w0)"
proof -
  have t: "fst (get_program_types env w) = fst (get_program_types env w0)"
    by (rule fst_get_program_types_world)
  have a: "allocated w0 (fst (get_program_types env w0))"
    using assms(1) by (rule get_program_types_allocated)
  show ?thesis
    using next_program_type_fetched_agree [OF a, of "heap w" n] assms(2) t
    by (simp add: get_program_type_def split_def Let_def)
qed

lemma get_program_type_fields [simp]:
  "heap (snd (get_program_type env n w)) = heap w"
  "next_free (snd (get_program_type env n w)) = next_free w"
  "cache (snd (get_program_type env n w)) = cache w"
  "trace (snd (get_program_type env n w)) = trace (snd (get_program_types env w))"
  by (simp_all add: get_program_type_def split_def Let_def)

lemma next_program_type_Ref_in:
  "next_program_type h n its = Inr it \<Longrightarrow> it \<in> set its"
  by (induction its) (auto split: sum.splits if_splits)

lemma get_program_type_Ref_allocated:
  assumes "fetched_allocated env w" and "fst (get_program_type env n w) = Inr (Ref t)"
  shows "t < next_free w"
proof -
  have a: "allocated w (fst (get_program_types env w))"
    using assms(1) by (rule get_program_types_allocated)
  have "Ref t \<in> set (iter_fetched (heap w) (fst (get_program_types env w)))"
    using assms(2) by (auto simp: get_program_type_def split_def Let_def dest: next_program_type_Ref_in)
  then show ?thesis
    using a by (cases "fst (get_program_types env w)")
      (auto simp: iter_fetched_def allocated_def list_all_iff)
qed

lemma get_program_instructors_fields [simp]:
  "heap (snd (get_program_instructors env program w)) = heap w"
  "next_free (snd (get_program_instructors env program w)) = next_free w"
  by (auto simp: get_program_instructors_def Let_def split_def record_event_def split: sum.splits)

lemma get_program_instructors_cache:
  assumes "cache w = cache w'"
  shows "fst (get_program_instructors env program w) = fst (get_program_instructors env program w')"
proof -
  have "fst (collect_instructors env ks [] (record_event e w)) =
        fst (collect_instructors env ks [] (record_event e w'))" for ks e
    by (rule collect_instructors_world)
  then show ?thesis
    using assms
    by (auto simp: get_program_instructors_def Let_def split_def cache_get_def split: sum.splits)
qed

lemma api_calls_collect_instructors [simp]:
  "api_calls (trace (snd (collect_instructors env ks d w))) = api_calls (trace w)"
  by (induction ks arbitrary: d w) (auto simp: Let_def record_event_def split: sum.splits)

lemma api_calls_get_program_instructors [simp]:
  "api_calls (trace (snd (get_program_instructors env program w))) = api_calls (trace w)"
  by (auto simp: get_program_instructors_def Let_def split_def record_event_def split: sum.splits)

lemma next_program_find:
  assumes "\<forall>p\<in>set ps. fmlookup (h p) ''marketing_slug'' \<noteq> None"
  shows "next_program h slug (map Ref ps) =
           Inr (map_option Ref
                  (find (\<lambda>p. fmlookup (h p) ''marketing_slug'' = Some (PStr slug)) ps))"
  using assms
  by (induction ps) (auto simp: item_getitem_def dict_getitem_def split: option.splits)


lemma attach_type_and_instructors_ok:
  assumes "fetched_allocated env w" and "r < next_free w"
    and "fmlookup (heap w r) ''type'' = Some n"
    and "fst (get_program_type env n w) = Inr (Ref t)"
    and "fst (get_program_instructors env (heap w r) w) = Inr v"
  shows "fst (attach_type_and_instructors env (RObj r) w) = Inr (Some (next_free w)) \<and>
         heap (snd (attach_type_and_instructors env (RObj r) w)) (next_free w) =
           fmupd ''instructors'' v (fmupd ''type'' (PDict (heap w t)) (heap w r)) \<and>
         api_calls (trace (snd (attach_type_and_instructors env (RObj r) w))) =
           api_calls (trace (snd (get_program_types env w)))"
proof -
  let ?c = "next_free w"
  let ?w1 = "snd (deepcopy r w)"
  let ?w2 = "snd (get_program_type env n ?w1)"
  let ?w3 = "setitem ?c ''type'' (PDict (heap w t)) ?w2"
  let ?w4 = "snd (get_program_instructors env (heap w r) ?w3)"
  have rc: "r \<noteq> ?c" using assms(2) by simp
  have t: "t < ?c" using assms(1,4) by (rule get_program_type_Ref_allocated)
  have d: "deepcopy_fetched (RObj r) w = (RObj ?c, ?w1)"
    by (simp add: deepcopy_fetched_def split_def)
  have ty: "dict_getitem (heap ?w1 r) ''type'' = Inr n"
    using rc assms(3) by (simp add: dict_getitem_def)
  have "\<forall>a<next_free w. heap ?w1 a = heap w a" by simp
  from get_program_type_agree [OF assms(1) this, of n]
  have pt: "fst (get_program_type env n ?w1) = Inr (Ref t)"
    using assms(4) by simp
  have iv: "item_value (heap ?w2) (Ref t) = PDict (heap w t)"
    using t by (simp add: item_value_def)
  have h3: "heap ?w3 r = heap w r" using rc by simp
  have "cache ?w3 = cache w" by simp
  from get_program_instructors_cache [OF this, of env "heap w r"]
  have gi: "fst (get_program_instructors env (heap w r) ?w3) = Inr v"
    using assms(5) by simp
  have res: "attach_type_and_instructors env (RObj r) w =
               (Inr (Some ?c), setitem ?c ''instructors'' v ?w4)"
    using ty pt iv h3 gi
    by (simp add: attach_type_and_instructors_def d split_def Let_def)
  have hc: "heap (setitem ?c ''instructors'' v ?w4) ?c =
              fmupd ''instructors'' v (fmupd ''type'' (PDict (heap w t)) (heap w r))"
    by simp
  have tr: "api_calls (trace (setitem ?c ''instructors'' v ?w4)) =
              api_calls (trace (snd (get_program_types env w)))"
    by (simp add: get_program_types_trace)
  show ?thesis using res hc tr by simp
qed


lemma fetched_allocated_next_free:
  "next_free w' = next_free w \<Longrightarrow> fetched_allocated env w' = fetched_allocated env w"
  by (simp add: fetched_allocated_def allocated_def cong: fetched.case_cong)


lemma program_result_core:
  assumes "fetched_allocated env w"
    and "fst (get_programs env PNone None w) = RList ps"
    and "\<forall>p\<in>set ps. fmlookup (heap w p) ''marketing_slug'' \<noteq> None"
  shows "(find (\<lambda>p. fmlookup (heap w p) ''marketing_slug'' = Some (PStr slug)) ps = None \<longrightarrow>
            get_program_with_type_and_instructors env slug w =
              (Inr None, snd (get_programs env PNone None w))) \<and>
         (\<forall>p u r n t v.
            find (\<lambda>p. fmlookup (heap w p) ''marketing_slug'' = Some (PStr slug)) ps = Some p \<longrightarrow>
            fmlookup (heap w p) ''uuid'' = Some u \<longrightarrow>
            fst (get_programs env u None w) = RObj r \<longrightarrow>
            fmlookup (heap w r) ''type'' = Some n \<longrightarrow>
            fst (get_program_type env n w) = Inr (Ref t) \<longrightarrow>
            fst (get_program_instructors env (heap w r) w) = Inr v \<longrightarrow>
              fst (get_program_with_type_and_instructors env slug w) = Inr (Some (next_free w)) \<and>
              heap (snd (get_program_with_type_and_instructors env slug w)) (next_free w) =
                fmupd ''instructors'' v (fmupd ''type'' (PDict (heap w t)) (heap w r)) \<and>
              api_calls (trace (snd (get_program_with_type_and_instructors env slug w))) =
                api_calls (trace w) @
                  [programs_request env PNone None, programs_request env u None,
                   program_types_request env])"
proof (intro conjI impI allI)
  let ?w1 = "snd (get_programs env PNone None w)"
  let ?f = "find (\<lambda>p. fmlookup (heap w p) ''marketing_slug'' = Some (PStr slug)) ps"
  have np: "next_program (heap ?w1) slug (iter_fetched (heap ?w1) (fst (get_programs env PNone None w)))
              = Inr (map_option Ref ?f)"
    using assms(2) next_program_find [OF assms(3), of slug] by (simp add: iter_fetched_def)
  {
    assume "?f = None"
    then show "get_program_with_type_and_instructors env slug w = (Inr None, ?w1)"
      using np by (simp add: get_program_with_type_and_instructors_def split_def Let_def)
  }
  fix p u r n t v
  assume f: "?f = Some p"
    and u: "fmlookup (heap w p) ''uuid'' = Some u"
    and r: "fst (get_programs env u None w) = RObj r"
    and n: "fmlookup (heap w r) ''type'' = Some n"
    and t: "fst (get_program_type env n w) = Inr (Ref t)"
    and v: "fst (get_program_instructors env (heap w r) w) = Inr v"
  let ?w2 = "snd (get_programs env u None ?w1)"
  have p: "p \<in> set ps" using f by (metis find_Some_iff nth_mem)
  then have ne: "ps \<noteq> []" by auto
  have en: "enabled env" "service_username env \<in> set (user_objects env)"
    using get_programs_nonempty [OF assms(2) ne] by simp_all
  have tr: "item_truthy (heap ?w1) (Ref p)"
    using assms(3) p by (auto simp: item_truthy_def)
  have r2: "fst (get_programs env u None ?w1) = RObj r"
    using r fst_get_programs_world [of env u None ?w1 w] by simp
  have unfold: "get_program_with_type_and_instructors env slug w =
                  attach_type_and_instructors env (RObj r) ?w2"
    using np f tr u r2
    by (simp add: get_program_with_type_and_instructors_def split_def Let_def
          item_getitem_def dict_getitem_def)
  have fa: "fetched_allocated env ?w2"
    using assms(1) fetched_allocated_next_free [of ?w2 w env] by simp
  have "allocated w (fst (get_programs env u None w))"
    using assms(1) by (rule get_programs_allocated)
  then have ra: "r < next_free ?w2" using r by (simp add: allocated_def)
  have n2: "fmlookup (heap ?w2 r) ''type'' = Some n" using n by simp
  have "\<forall>a<next_free w. heap ?w2 a = heap w a" by simp
  from get_program_type_agree [OF assms(1) this, of n]
  have t2: "fst (get_program_type env n ?w2) = Inr (Ref t)" using t by simp
  have "cache ?w2 = cache w" by simp
  from get_program_instructors_cache [OF this, of env "heap w r"]
  have v2: "fst (get_program_instructors env (heap ?w2 r) ?w2) = Inr v" using v by simp
  note a = attach_type_and_instructors_ok [OF fa ra n2 t2 v2]
  have tr2: "api_calls (trace (snd (get_program_types env ?w2))) =
               api_calls (trace w) @
                  [programs_request env PNone None, programs_request env u None,
                   program_types_request env]"
    using en by (simp add: get_program_types_trace get_programs_trace)
  show "fst (get_program_with_type_and_instructors env slug w) = Inr (Some (next_free w))"
    using a unfold by simp
  show "heap (snd (get_program_with_type_and_instructors env slug w)) (next_free w) =
                fmupd ''instructors'' v (fmupd ''type'' (PDict (heap w t)) (heap w r))"
    using a unfold by simp
  show "api_calls (trace (snd (get_program_with_type_and_instructors env slug w))) =
                api_calls (trace w) @
                  [programs_request env PNone None, programs_request env u None,
                   program_types_request env]"
    using a unfold tr2 by simp
qed

lemma attach_type_and_instructors_type_error:
  assumes "fetched_allocated env w" and "r < next_free w"
    and "fmlookup (heap w r) ''type'' = Some n"
    and "fst (get_program_type env n w) = Inl e"
  shows "fst (attach_type_and_instructors env (RObj r) w) = Inl e"
proof -
  let ?c = "next_free w"
  let ?w1 = "snd (deepcopy r w)"
  have rc: "r \<noteq> ?c" using assms(2) by simp
  have d: "deepcopy_fetched (RObj r) w = (RObj ?c, ?w1)"
    by (simp add: deepcopy_fetched_def split_def)
  have ty: "dict_getitem (heap ?w1 r) ''type'' = Inr n"
    using rc assms(3) by (simp add: dict_getitem_def)
  have "\<forall>a<next_free w. heap ?w1 a = heap w a" by simp
  from get_program_type_agree [OF assms(1) this, of n]
  have pt: "fst (get_program_type env n ?w1) = Inl e"
    using assms(4) by simp
  show ?thesis
    using ty pt by (simp add: attach_type_and_instructors_def d split_def Let_def)
qed

lemma get_program_type_no_match:
  assumes "fst (get_program_types env w) = RList ts"
    and "\<forall>t\<in>set ts. fmlookup (heap w t) ''name'' \<noteq> None \<and>
                     fmlookup (heap w t) ''name'' \<noteq> Some n"
  shows "fst (get_program_type env n w) = Inl StopIteration"
proof -
  have a: "\<forall>t\<in>set ts. fmlookup (heap w t) ''name'' \<noteq> None" using assms(2) by blast
  have "find (\<lambda>t. fmlookup (heap w t) ''name'' = Some n) ts = None"
    using assms(2) by (simp add: find_None_iff)
  then show ?thesis
    using assms(1) next_program_type_find [OF a, of n]
    by (simp add: get_program_type_def split_def Let_def iter_fetched_def)
qed

lemma program_type_error_propagates:
  assumes "fetched_allocated env w"
    and "fst (get_programs env PNone None w) = RList ps"
    and "\<forall>p\<in>set ps. fmlookup (heap w p) ''marketing_slug'' \<noteq> None"
    and "find (\<lambda>p. fmlookup (heap w p) ''marketing_slug'' = Some (PStr slug)) ps = Some p"
    and "fmlookup (heap w p) ''uuid'' = Some u"
    and "fst (get_programs env u None w) = RObj r"
    and "fmlookup (heap w r) ''type'' = Some n"
    and "fst (get_program_type env n w) = Inl e"
  shows "fst (get_program_with_type_and_instructors env slug w) = Inl e"
proof -
  let ?w1 = "snd (get_programs env PNone None w)"
  let ?w2 = "snd (get_programs env u None ?w1)"
  have np: "next_program (heap ?w1) slug (iter_fetched (heap ?w1) (fst (get_programs env PNone None w)))
              = Inr (Some (Ref p))"
    using assms(2,4) next_program_find [OF assms(3), of slug] by (simp add: iter_fetched_def)
  have p: "p \<in> set ps" using assms(4) by (metis find_Some_iff nth_mem)
  have tr: "item_truthy (heap ?w1) (Ref p)"
    using assms(3) p by (auto simp: item_truthy_def)
  have r2: "fst (get_programs env u None ?w1) = RObj r"
    using assms(6) fst_get_programs_world [of env u None ?w1 w] by simp
  have unfold: "get_program_with_type_and_instructors env slug w =
                  attach_type_and_instructors env (RObj r) ?w2"
    using np tr assms(5) r2
    by (simp add: get_program_with_type_and_instructors_def split_def Let_def
          item_getitem_def dict_getitem_def)
  have fa: "fetched_allocated env ?w2"
    using assms(1) fetched_allocated_next_free [of ?w2 w env] by simp
  have "allocated w (fst (get_programs env u None w))"
    using assms(1) by (rule get_programs_allocated)
  then have ra: "r < next_free ?w2" using assms(6) by (simp add: allocated_def)
  have n2: "fmlookup (heap ?w2 r) ''type'' = Some n" using assms(7) by simp
  have "\<forall>a<next_free w. heap ?w2 a = heap w a" by simp
  from get_program_type_agree [OF assms(1) this, of n]
  have t2: "fst (get_program_type env n ?w2) = Inl e" using assms(8) by simp
  show ?thesis
    using attach_type_and_instructors_type_error [OF fa ra n2 t2] unfold by simp
qed

text \<open>
  Claim C1, as amended. Let the fetch utility hand out allocated objects and
  \<open>get_programs\<close> return a list of programs that all have a marketing slug. If no
  program has the slug asked for, \<open>get_program_with_type_and_instructors\<close> returns None
  and does no more than \<open>get_programs\<close>. Otherwise it takes the first program with that
  slug and fetches it again by its uuid; when that fetch returns a program,
  \<open>get_program_type\<close> resolves its type name and the instructors are aggregated, the
  call returns a new object: the re-fetched program with \<^verbatim>\<open>type\<close> replaced by the
  program type and \<^verbatim>\<open>instructors\<close> set to the aggregated list. The fetch utility is
  called three times: for the programs, for the program by uuid, for the program types.
  When \<open>get_program_type\<close> fails for the type name of the re-fetched program, the call
  fails with the same error; in particular, when the program types are a list of objects
  that all have a name and none has that name, the call fails with StopIteration.
\<close>

theorem get_program_with_type_and_instructors_result:
  assumes "fetched_allocated env w"
    and "fst (get_programs env PNone None w) = RList ps"
    and "\<forall>p\<in>set ps. fmlookup (heap w p) ''marketing_slug'' \<noteq> None"
  shows "(find (\<lambda>p. fmlookup (heap w p) ''marketing_slug'' = Some (PStr slug)) ps = None \<longrightarrow>
            get_program_with_type_and_instructors env slug w =
              (Inr None, snd (get_programs env PNone None w))) \<and>
         (\<forall>p u r n t v.
            find (\<lambda>p. fmlookup (heap w p) ''marketing_slug'' = Some (PStr slug)) ps = Some p \<longrightarrow>
            fmlookup (heap w p) ''uuid'' = Some u \<longrightarrow>
            fst (get_programs env u None w) = RObj r \<longrightarrow>
            fmlookup (heap w r) ''type'' = Some n \<longrightarrow>
            fst (get_program_type env n w) = Inr (Ref t) \<longrightarrow>
            fst (get_program_instructors env (heap w r) w) = Inr v \<longrightarrow>
              fst (get_program_with_type_and_instructors env slug w) = Inr (Some (next_free w)) \<and>
              heap (snd (get_program_with_type_and_instructors env slug w)) (next_free w) =
                fmupd ''instructors'' v (fmupd ''type'' (PDict (heap w t)) (heap w r)) \<and>
              api_calls (trace (snd (get_program_with_type_and_instructors env slug w))) =
                api_calls (trace w) @
                  [programs_request env PNone None, programs_request env u None,
                   program_types_request env]) \<and>
         (\<forall>p u r n e.
            find (\<lambda>p. fmlookup (heap w p) ''marketing_slug'' = Some (PStr slug)) ps = Some p \<longrightarrow>
            fmlookup (heap w p) ''uuid'' = Some u \<longrightarrow>
            fst (get_programs env u None w) = RObj r \<longrightarrow>
            fmlookup (heap w r) ''type'' = Some n \<longrightarrow>
            fst (get_program_type env n w) = Inl e \<longrightarrow>
              fst (get_program_with_type_and_instructors env slug w) = Inl e) \<and>
         (\<forall>p u r n ts.
            find (\<lambda>p. fmlookup (heap w p) ''marketing_slug'' = Some (PStr slug)) ps = Some p \<longrightarrow>
            fmlookup (heap w p) ''uuid'' = Some u \<longrightarrow>
            fst (get_programs env u None w) = RObj r \<longrightarrow>
            fmlookup (heap w r) ''type'' = Some n \<longrightarrow>
            fst (get_program_types env w) = RList ts \<longrightarrow>
            (\<forall>t\<in>set ts. fmlookup (heap w t) ''name'' \<noteq> None \<and>
                         fmlookup (heap w t) ''name'' \<noteq> Some n) \<longrightarrow>
              fst (get_program_with_type_and_instructors env slug w) = Inl StopIteration)"
proof (intro conjI)
  note core = program_result_core [OF assms, of slug]
  show "find (\<lambda>p. fmlookup (heap w p) ''marketing_slug'' = Some (PStr slug)) ps = None \<longrightarrow>
            get_program_with_type_and_instructors env slug w =
              (Inr None, snd (get_programs env PNone None w))"
    by (rule core [THEN conjunct1])
  show "\<forall>p u r n t v.
            find (\<lambda>p. fmlookup (heap w p) ''marketing_slug'' = Some (PStr slug)) ps = Some p \<longrightarrow>
            fmlookup (heap w p) ''uuid'' = Some u \<longrightarrow>
            fst (get_programs env u None w) = RObj r \<longrightarrow>
            fmlookup (heap w r) ''type'' = Some n \<longrightarrow>
            fst (get_program_type env n w) = Inr (Ref t) \<longrightarrow>
            fst (get_program_instructors env (heap w r) w) = Inr v \<longrightarrow>
              fst (get_program_with_type_and_instructors env slug w) = Inr (Some (next_free w)) \<and>
              heap (snd (get_program_with_type_and_instructors env slug w)) (next_free w) =
                fmupd ''instructors'' v (fmupd ''type'' (PDict (heap w t)) (heap w r)) \<and>
              api_calls (trace (snd (get_program_with_type_and_instructors env slug w))) =
                api_calls (trace w) @
                  [programs_request env PNone None, programs_request env u None,
                   program_types_request env]"
    by (rule core [THEN conjunct2])
  show "\<forall>p u r n e.
            find (\<lambda>p. fmlookup (heap w p) ''marketing_slug'' = Some (PStr slug)) ps = Some p \<longrightarrow>
            fmlookup (heap w p) ''uuid'' = Some u \<longrightarrow>
            fst (get_programs env u None w) = RObj r \<longrightarrow>
            fmlookup (heap w r) ''type'' = Some n \<longrightarrow>
            fst (get_program_type env n w) = Inl e \<longrightarrow>
              fst (get_program_with_type_and_instructors env slug w) = Inl e"
    by (intro allI impI) (rule program_type_error_propagates [OF assms])
  show "\<forall>p u r n ts.
            find (\<lambda>p. fmlookup (heap w p) ''marketing_slug'' = Some (PStr slug)) ps = Some p \<longrightarrow>
            fmlookup (heap w p) ''uuid'' = Some u \<longrightarrow>
            fst (get_programs env u None w) = RObj r \<longrightarrow>
            fmlookup (heap w r) ''type'' = Some n \<longrightarrow>
            fst (get_program_types env w) = RList ts \<longrightarrow>
            (\<forall>t\<in>set ts. fmlookup (heap w t) ''name'' \<noteq> None \<and>
                         fmlookup (heap w t) ''name'' \<noteq> Some n) \<longrightarrow>
              fst (get_program_with_type_and_instructors env slug w) = Inl StopIteration"
  proof (intro allI impI)
    fix p u r n ts
    assume a: "find (\<lambda>p. fmlookup (heap w p) ''marketing_slug'' = Some (PStr slug)) ps = Some p"
      "fmlookup (heap w p) ''uuid'' = Some u"
      "fst (get_programs env u None w) = RObj r"
      "fmlookup (heap w r) ''type'' = Some n"
      and t: "fst (get_program_types env w) = RList ts"
      "\<forall>t\<in>set ts. fmlookup (heap w t) ''name'' \<noteq> None \<and>
                         fmlookup (heap w t) ''name'' \<noteq> Some n"
    have "fst (get_program_type env n w) = Inl StopIteration"
      using t by (rule get_program_type_no_match)
    with a show "fst (get_program_with_type_and_instructors env slug w) = Inl StopIteration"
      by (rule program_type_error_propagates [OF assms])
  qed
qed

theorem get_program_with_type_and_instructors_result_witness:
  "fetched_allocated example_env example_world \<and>
   fst (get_programs example_env PNone None example_world) = RList [0, 1] \<and>
   fmlookup (heap example_world 0) ''marketing_slug'' = Some (PStr ''ds'') \<and>
   fmlookup (heap example_world 1) ''marketing_slug'' = Some (PStr ''ai'') \<and>
   fst (get_programs example_env (PStr ''u1'') None example_world) = RObj 0 \<and>
   fst (get_program_type example_env (PStr ''MM'') example_world) = Inr (Ref 2) \<and>
   fst (get_program_with_type_and_instructors example_env ''ds'' example_world) = Inr (Some 4) \<and>
   heap (snd (get_program_with_type_and_instructors example_env ''ds'' example_world)) 4 =
     fmupd ''instructors''
       (PList [PDict (fmap_of_list [(''name'', PStr ''Bob''), (''organization'', PStr ''X'')]),
               PDict (fmap_of_list [(''name'', PStr ''Ann''), (''organization'', PStr ''X'')])])
       (fmupd ''type'' (PDict (heap example_world 2)) (heap example_world 0)) \<and>
   map resource_id
     (api_calls (trace (snd (get_program_with_type_and_instructors example_env ''ds'' example_world))))
     = [PNone, PStr ''u1'', PNone] \<and>
   get_program_with_type_and_instructors example_env ''zz'' example_world =
     (Inr None, snd (get_programs example_env PNone None example_world)) \<and>
   fetched_allocated one_type_env example_world \<and>
   fst (get_programs one_type_env PNone None example_world) = RList [0, 1] \<and>
   fmlookup (heap example_world 1) ''uuid'' = Some (PStr ''u2'') \<and>
   fst (get_programs one_type_env (PStr ''u2'') None example_world) = RObj 1 \<and>
   fmlookup (heap example_world 1) ''type'' = Some (PStr ''XS'') \<and>
   fst (get_program_types one_type_env example_world) = RList [2] \<and>
   fmlookup (heap example_world 2) ''name'' = Some (PStr ''MM'') \<and>
   fst (get_program_type one_type_env (PStr ''XS'') example_world) = Inl StopIteration \<and>
   fst (get_program_with_type_and_instructors one_type_env ''ai'' example_world) =
     Inl StopIteration"
proof -
  let ?v = "PList [PDict (fmap_of_list [(''name'', PStr ''Bob''), (''organization'', PStr ''X'')]),
               PDict (fmap_of_list [(''name'', PStr ''Ann''), (''organization'', PStr ''X'')])]"
  have 1: "fetched_allocated example_env example_world"
    by (simp add: fetched_allocated_def allocated_def example_env_def example_fetch_def
          example_world_def)
  have 2: "fst (get_programs example_env PNone None example_world) = RList [0, 1]"
    by (simp add: model_defs)
  have s0: "fmlookup (heap example_world 0) ''marketing_slug'' = Some (PStr ''ds'')"
    and s1: "fmlookup (heap example_world 1) ''marketing_slug'' = Some (PStr ''ai'')"
    by (simp_all add: example_world_def example_heap_def)
  have 3: "\<forall>p\<in>set [0, 1]. fmlookup (heap example_world p) ''marketing_slug'' \<noteq> None"
    using s0 s1 by simp
  have f: "find (\<lambda>p. fmlookup (heap example_world p) ''marketing_slug'' = Some (PStr ''ds'')) [0, 1]
             = Some 0"
    using s0 by simp
  have g: "find (\<lambda>p. fmlookup (heap example_world p) ''marketing_slug'' = Some (PStr ''zz'')) [0, 1]
             = None"
    using s0 s1 by simp
  have u: "fmlookup (heap example_world 0) ''uuid'' = Some (PStr ''u1'')"
    by (simp add: example_world_def example_heap_def)
  have r: "fst (get_programs example_env (PStr ''u1'') None example_world) = RObj 0"
    by (simp add: model_defs)
  have n: "fmlookup (heap example_world 0) ''type'' = Some (PStr ''MM'')"
    by (simp add: example_world_def example_heap_def)
  have t: "fst (get_program_type example_env (PStr ''MM'') example_world) = Inr (Ref 2)"
    by (simp add: model_defs)
  have v: "fst (get_program_instructors example_env (heap example_world 0) example_world) = Inr ?v"
    by (simp add: model_defs)
  have nf: "next_free example_world = 4" and tr: "trace example_world = []"
    by (simp_all add: example_world_def)
  have ids: "resource_id (programs_request example_env PNone None) = PNone"
    "resource_id (programs_request example_env (PStr ''u1'') None) = PStr ''u1''"
    "resource_id (program_types_request example_env) = PNone"
    by (simp_all add: programs_request_def program_types_request_def Let_def)
  note th = get_program_with_type_and_instructors_result [OF 1 2 3]
  have a: "fst (get_program_with_type_and_instructors example_env ''ds'' example_world) =
             Inr (Some (next_free example_world))"
    and b: "heap (snd (get_program_with_type_and_instructors example_env ''ds'' example_world))
              (next_free example_world) =
            fmupd ''instructors'' ?v (fmupd ''type'' (PDict (heap example_world 2)) (heap example_world 0))"
    and c: "api_calls (trace (snd (get_program_with_type_and_instructors example_env ''ds'' example_world))) =
            api_calls (trace example_world) @
              [programs_request example_env PNone None,
               programs_request example_env (PStr ''u1'') None,
               program_types_request example_env]"
    using th [of "''ds''"] f u r n t v by blast+
  have d: "get_program_with_type_and_instructors example_env ''zz'' example_world =
     (Inr None, snd (get_programs example_env PNone None example_world))"
    using th [of "''zz''"] g by blast
  have o1: "fetched_allocated one_type_env example_world"
    by (simp add: fetched_allocated_def allocated_def one_type_env_def example_env_def
          example_fetch_def example_world_def)
  have o2: "fst (get_programs one_type_env PNone None example_world) = RList [0, 1]"
    by (simp add: model_defs)
  have h: "find (\<lambda>p. fmlookup (heap example_world p) ''marketing_slug'' = Some (PStr ''ai'')) [0, 1]
             = Some 1"
    using s0 s1 by simp
  have ou: "fmlookup (heap example_world 1) ''uuid'' = Some (PStr ''u2'')"
    and on: "fmlookup (heap example_world 1) ''type'' = Some (PStr ''XS'')"
    and nm: "fmlookup (heap example_world 2) ''name'' = Some (PStr ''MM'')"
    by (simp_all add: example_world_def example_heap_def)
  have or: "fst (get_programs one_type_env (PStr ''u2'') None example_world) = RObj 1"
    by (simp add: model_defs)
  have ots: "fst (get_program_types one_type_env example_world) = RList [2]"
    by (simp add: model_defs)
  have ot: "fst (get_program_type one_type_env (PStr ''XS'') example_world) = Inl StopIteration"
    by (simp add: model_defs)
  have nms: "\<forall>t\<in>set [2]. fmlookup (heap example_world t) ''name'' \<noteq> None \<and>
                fmlookup (heap example_world t) ''name'' \<noteq> Some (PStr ''XS'')"
    using nm by simp
  note th1 = get_program_with_type_and_instructors_result [OF o1 o2 3, of "''ai''"]
  have e: "fst (get_program_with_type_and_instructors one_type_env ''ai'' example_world) =
             Inl StopIteration"
    using th1 [THEN conjunct2, THEN conjunct2, THEN conjunct1, rule_format, OF h ou or on ot] .
  have e': "fst (get_program_with_type_and_instructors one_type_env ''ai'' example_world) =
             Inl StopIteration"
    using th1 [THEN conjunct2, THEN conjunct2, THEN conjunct2, rule_format, OF h ou or on ots]
      nms by blast
  have p1: "fetched_allocated example_env example_world \<and>
   fst (get_programs example_env PNone None example_world) = RList [0, 1] \<and>
   fmlookup (heap example_world 0) ''marketing_slug'' = Some (PStr ''ds'') \<and>
   fmlookup (heap example_world 1) ''marketing_slug'' = Some (PStr ''ai'') \<and>
   fst (get_programs example_env (PStr ''u1'') None example_world) = RObj 0 \<and>
   fst (get_program_type example_env (PStr ''MM'') example_world) = Inr (Ref 2) \<and>
   fst (get_program_with_type_and_instructors example_env ''ds'' example_world) = Inr (Some 4) \<and>
   heap (snd (get_program_with_type_and_instructors example_env ''ds'' example_world)) 4 =
     fmupd ''instructors'' ?v
       (fmupd ''type'' (PDict (heap example_world 2)) (heap example_world 0)) \<and>
   map resource_id
     (api_calls (trace (snd (get_program_with_type_and_instructors example_env ''ds'' example_world))))
     = [PNone, PStr ''u1'', PNone] \<and>
   get_program_with_type_and_instructors example_env ''zz'' example_world =
     (Inr None, snd (get_programs example_env PNone None example_world))"
    using 1 2 s0 s1 r t a b c d by (simp add: nf tr ids)
  have p2: "fetched_allocated one_type_env example_world \<and>
   fst (get_programs one_type_env PNone None example_world) = RList [0, 1] \<and>
   fmlookup (heap example_world 1) ''uuid'' = Some (PStr ''u2'') \<and>
   fst (get_programs one_type_env (PStr ''u2'') None example_world) = RObj 1 \<and>
   fmlookup (heap example_world 1) ''type'' = Some (PStr ''XS'') \<and>
   fst (get_program_types one_type_env example_world) = RList [2] \<and>
   fmlookup (heap example_world 2) ''name'' = Some (PStr ''MM'') \<and>
   fst (get_program_type one_type_env (PStr ''XS'') example_world) = Inl StopIteration \<and>
   fst (get_program_with_type_and_instructors one_type_env ''ai'' example_world) =
     Inl StopIteration"
    by (intro conjI) (rule o1, rule o2, rule ou, rule or, rule on, rule ots, rule nm, rule ot,
        rule e')
  from p1 p2 show ?thesis by (simp only: conj_assoc) 
qed

text \<open>
  As stated, C1 fails when a program has the slug but its type name is not the name of a
  fetched program type: the StopIteration of \<open>get_program_type\<close> ends the call.
\<close>

theorem unresolved_type_counterexample:
  "fst (get_programs no_types_env PNone None example_world) = RList [0, 1] \<and>
   fmlookup (heap example_world 0) ''marketing_slug'' = Some (PStr ''ds'') \<and>
   fst (get_programs no_types_env (PStr ''u1'') None example_world) = RObj 0 \<and>
   fst (get_program_type no_types_env (PStr ''MM'') example_world) = Inl StopIteration \<and>
   fst (get_program_with_type_and_instructors no_types_env ''ds'' example_world) = Inl StopIteration"
  by (simp add: model_defs)

end
